theory Spec2Isabelle
  imports Complex_Main "HOL-Library.Word"
begin

unbundle bit_operations_syntax

section \<open>Data model (model.ts, resourceGroups.ts)\<close>

text \<open>
  A location is a \<open>Uri\<close> in its string form: the source compares locations only through
  \<open>uri.toString()\<close>.
\<close>

type_synonym uri = string

datatype Status = MODIFIED | ADDED | DELETED | UNTRACKED | IGNORED | MISSING | RENAMED | CLEAN

datatype MergeStatus = NONE | UNRESOLVED | RESOLVED

text \<open>The keys of \<open>IStatusGroups\<close>: the static \<open>ID\<close> of each of the five group classes.\<close>

datatype ResourceGroupId = ConflictID | StagingID | MergeID | WorkingID | UntrackedID

text \<open>
  \<open>HgError\<close> carries its message; \<open>RenamedUnexpectedStatus s\<close> is the plain
  \<open>Error("Renamed resource with unexpected status: ...")\<close> thrown by the getter
  \<open>Resource.resourceUri\<close>.
\<close>

datatype error = HgError string | RenamedUnexpectedStatus Status

text \<open>
  Class \<open>Resource\<close> and class \<open>ResourceGroup\<close> refer to each other: a resource holds
  its owning group object (\<open>_resourceGroup\<close>), a group its resource sequence. Both are
  immutable after construction, and a resource is always built with a group that exists
  already and put into a group built afterwards, so the object graph has no cycle and the
  objects are the values of two mutually recursive datatypes.

  The fields of \<open>Resource\<close>: owning group, \<open>original\<close> (the private \<open>_resourceUri\<close>,
  returned by the getter \<open>original\<close>), status, merge status, optional rename source. The
  fields of \<open>ResourceGroup\<close>: identifier, resource sequence and the derived index
  \<open>_resourceUriIndex : Map<string, boolean>\<close> (the label is a localized constant of the
  class and is left out).
\<close>

datatype Resource =
  Resource (resourceGroup: ResourceGroup) (original: uri) (status: Status)
    (mergeStatus: MergeStatus) (renameResourceUri: "uri option")
and ResourceGroup =
  ResourceGroup (group_id: ResourceGroupId) (resources: "Resource list")
    (resourceUriIndex: "uri \<rightharpoonup> bool")

text \<open>The getter \<open>Resource.resourceUri\<close>: it throws for a rename on an unexpected status.\<close>

definition resourceUri :: "Resource \<Rightarrow> error + uri" where
  "resourceUri r =
     (case renameResourceUri r of
        Some ru \<Rightarrow>
          if status r = MODIFIED \<or> status r = RENAMED \<or> status r = ADDED
          then Inr ru
          else Inl (RenamedUnexpectedStatus (status r))
      | None \<Rightarrow> Inr (original r))"

text \<open>\<open>resources.forEach(r => index.set(r.resourceUri.toString(), true))\<close>\<close>

fun indexResources_forEach :: "(uri \<rightharpoonup> bool) \<Rightarrow> Resource list \<Rightarrow> error + (uri \<rightharpoonup> bool)" where
  "indexResources_forEach index [] = Inr index"
| "indexResources_forEach index (r # rs) =
     (case resourceUri r of
        Inl e \<Rightarrow> Inl e
      | Inr u \<Rightarrow> indexResources_forEach (index(u \<mapsto> True)) rs)"

definition indexResources :: "Resource list \<Rightarrow> error + (uri \<rightharpoonup> bool)" where
  "indexResources rs = indexResources_forEach Map.empty rs"

text \<open>
  The constructor of a group class (and \<open>newResourceGroup\<close>, which calls the constructor of
  the receiver's class): it indexes the resources, so it throws when one of them has no
  valid effective location.
\<close>

definition newResourceGroup :: "ResourceGroupId \<Rightarrow> Resource list \<Rightarrow> error + ResourceGroup" where
  "newResourceGroup gid rs =
     (case indexResources rs of
        Inl e \<Rightarrow> Inl e
      | Inr index \<Rightarrow> Inr (ResourceGroup gid rs index))"

definition includesUri :: "ResourceGroup \<Rightarrow> uri \<Rightarrow> bool" where
  "includesUri g u = (resourceUriIndex g u \<noteq> None)"

definition includes_resource :: "ResourceGroup \<Rightarrow> Resource \<Rightarrow> error + bool" where
  "includes_resource g r = (case resourceUri r of Inl e \<Rightarrow> Inl e | Inr u \<Rightarrow> Inr (includesUri g u))"

text \<open>
  \<open>Array.prototype.filter\<close> and \<open>map\<close> with a callback that may throw: the elements are
  visited in order and the first exception ends the call.
\<close>

fun filter_throwing :: "('a \<Rightarrow> error + bool) \<Rightarrow> 'a list \<Rightarrow> error + 'a list" where
  "filter_throwing p [] = Inr []"
| "filter_throwing p (x # xs) =
     (case p x of
        Inl e \<Rightarrow> Inl e
      | Inr b \<Rightarrow>
          (case filter_throwing p xs of
             Inl e \<Rightarrow> Inl e
           | Inr ys \<Rightarrow> Inr (if b then x # ys else ys)))"

fun map_throwing :: "('a \<Rightarrow> error + 'b) \<Rightarrow> 'a list \<Rightarrow> error + 'b list" where
  "map_throwing f [] = Inr []"
| "map_throwing f (x # xs) =
     (case f x of
        Inl e \<Rightarrow> Inl e
      | Inr y \<Rightarrow>
          (case map_throwing f xs of
             Inl e \<Rightarrow> Inl e
           | Inr ys \<Rightarrow> Inr (y # ys)))"

text \<open>
  \<open>new Resource(this, r.resourceUri, r.status, r.mergeStatus)\<close>: the owner is the
  receiver \<open>this\<close>, and there is no rename argument.
\<close>

definition rehome :: "ResourceGroup \<Rightarrow> Resource \<Rightarrow> error + Resource" where
  "rehome g r =
     (case resourceUri r of
        Inl e \<Rightarrow> Inl e
      | Inr u \<Rightarrow>
          Inr (Resource g u (status r) (mergeStatus r) None))"

definition intersect :: "ResourceGroup \<Rightarrow> Resource list \<Rightarrow> error + ResourceGroup" where
  "intersect g rs =
     (case filter_throwing (\<lambda>r. case includes_resource g r of Inl e \<Rightarrow> Inl e | Inr b \<Rightarrow> Inr (\<not> b)) rs of
        Inl e \<Rightarrow> Inl e
      | Inr kept \<Rightarrow>
          (case map_throwing (rehome g) kept of
             Inl e \<Rightarrow> Inl e
           | Inr newUniqueResources \<Rightarrow>
               newResourceGroup (group_id g) (resources g @ newUniqueResources)))"

definition except :: "ResourceGroup \<Rightarrow> Resource list \<Rightarrow> error + ResourceGroup" where
  "except g rs =
     (case indexResources rs of
        Inl e \<Rightarrow> Inl e
      | Inr excludeIndex \<Rightarrow>
          (case filter_throwing
                  (\<lambda>r. case resourceUri r of
                          Inl e \<Rightarrow> Inl e
                        | Inr u \<Rightarrow> Inr (\<not> (excludeIndex u \<noteq> None)))
                  (resources g) of
             Inl e \<Rightarrow> Inl e
           | Inr remainingResources \<Rightarrow> newResourceGroup (group_id g) remainingResources))"

section \<open>Status reconciler (resourceGroups.ts)\<close>

definition toMergeStatus :: "string \<Rightarrow> MergeStatus" where
  "toMergeStatus s =
     (if s = ''R'' then RESOLVED
      else if s = ''U'' then UNRESOLVED
      else NONE)"

text \<open>
  \<open>IFileStatus\<close> (declared in hg.ts): path, single-letter status code, optional rename
  source. \<open>IRepoStatus\<close>: only \<open>isMerge\<close> is read by the reconciler.
\<close>

record IFileStatus =
  fs_path :: string
  fs_status :: string
  fs_rename :: "string option"

record IRepoStatus =
  isMerge :: bool

record IStatusGroups =
  conflict :: ResourceGroup
  staging :: ResourceGroup
  merge :: ResourceGroup
  working :: ResourceGroup
  untracked :: ResourceGroup

record IGroupStatusesParams =
  respositoryRoot :: string
  statusGroups :: IStatusGroups
  fileStatuses :: "IFileStatus list"
  repoStatus :: IRepoStatus
  resolveStatuses :: "IFileStatus list option"

text \<open>
  What the reconciler takes from its platform: \<open>fileUri root p\<close> stands for
  \<open>Uri.file(path.join(root, p)).toString()\<close> and \<open>existsSync u\<close> for
  \<open>fs.existsSync(uri.fsPath)\<close>.
\<close>

record Platform =
  fileUri :: "string \<Rightarrow> string \<Rightarrow> uri"
  existsSync :: "uri \<Rightarrow> bool"

text \<open>\<open>Uri.file(path.join(respositoryRoot, raw.path))\<close>, as a string: the location of a record.\<close>

definition location :: "Platform \<Rightarrow> IGroupStatusesParams \<Rightarrow> IFileStatus \<Rightarrow> uri" where
  "location pf p raw = fileUri pf (respositoryRoot p) (fs_path raw)"

text \<open>JavaScript truthiness of \<open>raw.rename\<close>: \<open>undefined\<close> and the empty string are falsy.\<close>

definition truthy :: "string option \<Rightarrow> bool" where
  "truthy x = (case x of None \<Rightarrow> False | Some s \<Rightarrow> s \<noteq> [])"

text \<open>The five local arrays of \<open>groupStatuses\<close>, and \<open>push\<close> on the one chosen.\<close>

record Arrays =
  workingDirectoryResources :: "Resource list"
  stagingResources :: "Resource list"
  conflictResources :: "Resource list"
  mergeResources :: "Resource list"
  untrackedResources :: "Resource list"

definition emptyArrays :: Arrays where
  "emptyArrays =
     \<lparr>workingDirectoryResources = [], stagingResources = [], conflictResources = [],
      mergeResources = [], untrackedResources = []\<rparr>"

fun push :: "ResourceGroupId \<Rightarrow> Resource \<Rightarrow> Arrays \<Rightarrow> Arrays" where
  "push WorkingID r a = a\<lparr>workingDirectoryResources := workingDirectoryResources a @ [r]\<rparr>"
| "push StagingID r a = a\<lparr>stagingResources := stagingResources a @ [r]\<rparr>"
| "push ConflictID r a = a\<lparr>conflictResources := conflictResources a @ [r]\<rparr>"
| "push MergeID r a = a\<lparr>mergeResources := mergeResources a @ [r]\<rparr>"
| "push UntrackedID r a = a\<lparr>untrackedResources := untrackedResources a @ [r]\<rparr>"

text \<open>The \<open>switch (rawStatus)\<close> at the head of \<open>chooseResourcesAndGroup\<close>.\<close>

definition switch_rawStatus :: "string \<Rightarrow> bool \<Rightarrow> error + Status" where
  "switch_rawStatus rawStatus renamed =
     (if rawStatus = ''M'' then Inr MODIFIED
      else if rawStatus = ''R'' then Inr DELETED
      else if rawStatus = ''I'' then Inr IGNORED
      else if rawStatus = ''?'' then Inr UNTRACKED
      else if rawStatus = ''!'' then Inr MISSING
      else if rawStatus = ''A'' then Inr (if renamed then RENAMED else ADDED)
      else if rawStatus = ''C'' then Inr CLEAN
      else Inl (HgError (''Unknown rawStatus: '' @ rawStatus)))"

text \<open>
  \<open>staging.resources.some(resource => resource.resourceUri.toString() === uriString)\<close>:
  stops at the first match, throws where the getter throws.
\<close>

fun some_resourceUri :: "Resource list \<Rightarrow> uri \<Rightarrow> error + bool" where
  "some_resourceUri [] uriString = Inr False"
| "some_resourceUri (r # rs) uriString =
     (case resourceUri r of
        Inl e \<Rightarrow> Inl e
      | Inr u \<Rightarrow> if u = uriString then Inr True else some_resourceUri rs uriString)"

text \<open>Reading a partition by identifier (\<open>getResourceGroupById\<close> in model.ts).\<close>

fun groupById :: "IStatusGroups \<Rightarrow> ResourceGroupId \<Rightarrow> ResourceGroup" where
  "groupById gs ConflictID = conflict gs"
| "groupById gs StagingID = staging gs"
| "groupById gs MergeID = merge gs"
| "groupById gs WorkingID = working gs"
| "groupById gs UntrackedID = untracked gs"

text \<open>
  The closure \<open>chooseResourcesAndGroup\<close>. It returns a target array and a group together,
  always the array and the group of one name: the group is the group of that name in the
  previous partition \<open>statusGroups\<close> (the destructured parameter), the array the local
  array that becomes the new group of that name. The model returns the name; the loops
  read the group as \<open>groupById (statusGroups p) g\<close> and push on the array \<open>g\<close>.
\<close>

definition chooseResourcesAndGroup ::
  "IGroupStatusesParams \<Rightarrow> uri \<Rightarrow> string \<Rightarrow> MergeStatus \<Rightarrow> bool \<Rightarrow> error + (ResourceGroupId \<times> Status)" where
  "chooseResourcesAndGroup p uriString rawStatus ms renamed =
     (case switch_rawStatus rawStatus renamed of
        Inl e \<Rightarrow> Inl e
      | Inr st \<Rightarrow>
          if st = IGNORED \<or> st = UNTRACKED then Inr (UntrackedID, st)
          else if isMerge (repoStatus p) then
            (if ms = UNRESOLVED then Inr (ConflictID, st) else Inr (MergeID, st))
          else
            (case some_resourceUri (resources (staging (statusGroups p))) uriString of
               Inl e \<Rightarrow> Inl e
             | Inr isStaged \<Rightarrow> Inr (if isStaged then StagingID else WorkingID, st)))"

text \<open>
  \<open>resolveStatuses && resolveStatuses.filter(res => res.path === raw.path)[0]\<close>, then
  \<open>resolveFile ? toMergeStatus(resolveFile.status) : MergeStatus.NONE\<close>.
\<close>

definition lookup_mergeStatus :: "IFileStatus list option \<Rightarrow> IFileStatus \<Rightarrow> MergeStatus" where
  "lookup_mergeStatus rso raw =
     (case rso of
        None \<Rightarrow> NONE
      | Some rs \<Rightarrow>
          (case filter (\<lambda>res. fs_path res = fs_path raw) rs of
             [] \<Rightarrow> NONE
           | resolveFile # _ \<Rightarrow> toMergeStatus (fs_status resolveFile)))"

text \<open>The first loop, \<open>for (const raw of fileStatuses)\<close>, on the arrays and \<open>seenUriStrings\<close>.\<close>

fun fileStatuses_loop ::
  "Platform \<Rightarrow> IGroupStatusesParams \<Rightarrow> IFileStatus list \<Rightarrow> Arrays \<times> (uri \<rightharpoonup> bool)
     \<Rightarrow> error + (Arrays \<times> (uri \<rightharpoonup> bool))" where
  "fileStatuses_loop pf p [] st = Inr st"
| "fileStatuses_loop pf p (raw # rest) (a, seenUriStrings) =
     (let uriString = location pf p raw;
          seen' = seenUriStrings(uriString \<mapsto> True);
          renameUri = (case fs_rename raw of
                         None \<Rightarrow> None
                       | Some s \<Rightarrow> if s \<noteq> [] then Some (fileUri pf (respositoryRoot p) s) else None);
          ms = lookup_mergeStatus (resolveStatuses p) raw
      in case chooseResourcesAndGroup p uriString (fs_status raw) ms (truthy (fs_rename raw)) of
           Inl e \<Rightarrow> Inl e
         | Inr (g, st) \<Rightarrow>
             fileStatuses_loop pf p rest
               (push g (Resource (groupById (statusGroups p) g) uriString st ms renameUri) a,
                seen'))"

text \<open>The second loop, \<open>for (const raw of resolveStatuses)\<close>; \<open>seenUriStrings\<close> is only read.\<close>

fun resolveStatuses_loop ::
  "Platform \<Rightarrow> IGroupStatusesParams \<Rightarrow> (uri \<rightharpoonup> bool) \<Rightarrow> IFileStatus list \<Rightarrow> Arrays
     \<Rightarrow> error + Arrays" where
  "resolveStatuses_loop pf p seenUriStrings [] a = Inr a"
| "resolveStatuses_loop pf p seenUriStrings (raw # rest) a =
     (let uriString = location pf p raw
      in if seenUriStrings uriString \<noteq> None then resolveStatuses_loop pf p seenUriStrings rest a
         else
           (let ms = toMergeStatus (fs_status raw);
                inferredStatus = (if existsSync pf uriString then ''C'' else ''R'')
            in case chooseResourcesAndGroup p uriString inferredStatus ms (truthy (fs_rename raw)) of
                 Inl e \<Rightarrow> Inl e
               | Inr (g, st) \<Rightarrow>
                   resolveStatuses_loop pf p seenUriStrings rest
                     (push g (Resource (groupById (statusGroups p) g) uriString st ms None) a)))"

text \<open>The returned object literal: the five constructors run in the order written.\<close>

definition returnGroups :: "Arrays \<Rightarrow> error + IStatusGroups" where
  "returnGroups a =
     (case newResourceGroup ConflictID (conflictResources a) of
        Inl e \<Rightarrow> Inl e
      | Inr c \<Rightarrow>
     (case newResourceGroup MergeID (mergeResources a) of
        Inl e \<Rightarrow> Inl e
      | Inr m \<Rightarrow>
     (case newResourceGroup StagingID (stagingResources a) of
        Inl e \<Rightarrow> Inl e
      | Inr s \<Rightarrow>
     (case newResourceGroup WorkingID (workingDirectoryResources a) of
        Inl e \<Rightarrow> Inl e
      | Inr w \<Rightarrow>
     (case newResourceGroup UntrackedID (untrackedResources a) of
        Inl e \<Rightarrow> Inl e
      | Inr u \<Rightarrow>
          Inr \<lparr>conflict = c, staging = s, merge = m, working = w, untracked = u\<rparr>)))))"

definition groupStatuses :: "Platform \<Rightarrow> IGroupStatusesParams \<Rightarrow> error + IStatusGroups" where
  "groupStatuses pf p =
     (case fileStatuses_loop pf p (fileStatuses p) (emptyArrays, Map.empty) of
        Inl e \<Rightarrow> Inl e
      | Inr (a, seenUriStrings) \<Rightarrow>
          (case (case resolveStatuses p of
                   None \<Rightarrow> Inr a
                 | Some rs \<Rightarrow> resolveStatuses_loop pf p seenUriStrings rs a) of
             Inl e \<Rightarrow> Inl e
           | Inr a' \<Rightarrow> returnGroups a'))"

text \<open>Reading the arrays by identifier.\<close>

fun arrayById :: "Arrays \<Rightarrow> ResourceGroupId \<Rightarrow> Resource list" where
  "arrayById a ConflictID = conflictResources a"
| "arrayById a StagingID = stagingResources a"
| "arrayById a MergeID = mergeResources a"
| "arrayById a WorkingID = workingDirectoryResources a"
| "arrayById a UntrackedID = untrackedResources a"

text \<open>
  For the proofs: what each loop pushes for one record, as a relation between the record and
  the pair of chosen group and new resource, and a sequence of pushes.
\<close>

definition emitted_first ::
  "Platform \<Rightarrow> IGroupStatusesParams \<Rightarrow> IFileStatus \<Rightarrow> ResourceGroupId \<times> Resource \<Rightarrow> bool" where
  "emitted_first pf p raw gr =
     (chooseResourcesAndGroup p (location pf p raw) (fs_status raw)
        (lookup_mergeStatus (resolveStatuses p) raw) (truthy (fs_rename raw))
        = Inr (fst gr, status (snd gr)) \<and>
      snd gr =
        Resource (groupById (statusGroups p) (fst gr)) (location pf p raw) (status (snd gr))
          (lookup_mergeStatus (resolveStatuses p) raw)
          (case fs_rename raw of
             None \<Rightarrow> None
           | Some s \<Rightarrow> if s \<noteq> [] then Some (fileUri pf (respositoryRoot p) s) else None))"

definition emitted_second ::
  "Platform \<Rightarrow> IGroupStatusesParams \<Rightarrow> IFileStatus \<Rightarrow> ResourceGroupId \<times> Resource \<Rightarrow> bool" where
  "emitted_second pf p raw gr =
     (chooseResourcesAndGroup p (location pf p raw)
        (if existsSync pf (location pf p raw) then ''C'' else ''R'')
        (toMergeStatus (fs_status raw)) (truthy (fs_rename raw))
        = Inr (fst gr, status (snd gr)) \<and>
      snd gr =
        Resource (groupById (statusGroups p) (fst gr)) (location pf p raw) (status (snd gr))
          (toMergeStatus (fs_status raw)) None)"

definition pushAll :: "Arrays \<Rightarrow> (ResourceGroupId \<times> Resource) list \<Rightarrow> Arrays" where
  "pushAll a grs = foldl (\<lambda>a gr. push (fst gr) (snd gr) a) a grs"

text \<open>The resources of the five returned groups, in the order the groups are built.\<close>

definition allResources :: "IStatusGroups \<Rightarrow> Resource list" where
  "allResources gs =
     concat (map (\<lambda>g. resources (groupById gs g))
       [ConflictID, MergeID, StagingID, WorkingID, UntrackedID])"

text \<open>The raw status codes the \<open>switch\<close> knows.\<close>

definition knownCodes :: "string set" where
  "knownCodes = {''M'', ''R'', ''I'', ''?'', ''!'', ''A'', ''C''}"

text \<open>
  \<open>new ConflictGroup()\<close> and its siblings: the constructor on the default empty array.
  \<open>createEmptyStatusGroups\<close> builds the five of them.
\<close>

definition emptyGroup :: "ResourceGroupId \<Rightarrow> ResourceGroup" where
  "emptyGroup gid = ResourceGroup gid [] Map.empty"

definition createEmptyStatusGroups :: IStatusGroups where
  "createEmptyStatusGroups =
     \<lparr>conflict = emptyGroup ConflictID, staging = emptyGroup StagingID,
      merge = emptyGroup MergeID, working = emptyGroup WorkingID,
      untracked = emptyGroup UntrackedID\<rparr>"

text \<open>
  Example inputs. The platform joins root and path with a slash and finds no file on disk.
  \<open>ex_staging_a\<close> is the staging group after \<open>a.txt\<close> was staged from the empty
  partition (what \<open>intersect\<close> returns there), and \<open>ex_staged_a\<close> the partition holding it.
\<close>

definition ex_platform :: Platform where
  "ex_platform = \<lparr>fileUri = (\<lambda>root p. root @ ''/'' @ p), existsSync = (\<lambda>u. False)\<rparr>"

definition ex_staging_a :: ResourceGroup where
  "ex_staging_a =
     ResourceGroup StagingID
       [Resource (emptyGroup StagingID) ''/repo/a.txt'' MODIFIED NONE None]
       [''/repo/a.txt'' \<mapsto> True]"

definition ex_staged_a :: IStatusGroups where
  "ex_staged_a = createEmptyStatusGroups\<lparr>staging := ex_staging_a\<rparr>"

definition ex_duplicate :: IGroupStatusesParams where
  "ex_duplicate =
     \<lparr>respositoryRoot = ''/repo'', statusGroups = createEmptyStatusGroups,
      fileStatuses = [\<lparr>fs_path = ''a.txt'', fs_status = ''?'', fs_rename = None\<rparr>,
                      \<lparr>fs_path = ''a.txt'', fs_status = ''M'', fs_rename = None\<rparr>],
      repoStatus = \<lparr>isMerge = False\<rparr>, resolveStatuses = None\<rparr>"

definition ex_rename :: IGroupStatusesParams where
  "ex_rename =
     \<lparr>respositoryRoot = ''/repo'', statusGroups = ex_staged_a,
      fileStatuses = [\<lparr>fs_path = ''b.txt'', fs_status = ''A'', fs_rename = Some ''a.txt''\<rparr>,
                      \<lparr>fs_path = ''a.txt'', fs_status = ''R'', fs_rename = None\<rparr>],
      repoStatus = \<lparr>isMerge = False\<rparr>, resolveStatuses = None\<rparr>"

definition ex_merge :: IGroupStatusesParams where
  "ex_merge =
     \<lparr>respositoryRoot = ''/repo'', statusGroups = ex_staged_a,
      fileStatuses = [\<lparr>fs_path = ''a.txt'', fs_status = ''M'', fs_rename = None\<rparr>,
                      \<lparr>fs_path = ''n.txt'', fs_status = ''?'', fs_rename = None\<rparr>],
      repoStatus = \<lparr>isMerge = True\<rparr>,
      resolveStatuses = Some [\<lparr>fs_path = ''a.txt'', fs_status = ''R'', fs_rename = None\<rparr>,
                              \<lparr>fs_path = ''c.txt'', fs_status = ''U'', fs_rename = None\<rparr>,
                              \<lparr>fs_path = ''d.txt'', fs_status = ''X'', fs_rename = None\<rparr>]\<rparr>"

definition ex_refresh :: IGroupStatusesParams where
  "ex_refresh =
     \<lparr>respositoryRoot = ''/repo'', statusGroups = ex_staged_a,
      fileStatuses = [\<lparr>fs_path = ''a.txt'', fs_status = ''M'', fs_rename = None\<rparr>,
                      \<lparr>fs_path = ''b.txt'', fs_status = ''M'', fs_rename = None\<rparr>,
                      \<lparr>fs_path = ''n.txt'', fs_status = ''?'', fs_rename = None\<rparr>],
      repoStatus = \<lparr>isMerge = False\<rparr>, resolveStatuses = None\<rparr>"

definition ex_unknown :: IGroupStatusesParams where
  "ex_unknown =
     \<lparr>respositoryRoot = ''/repo'', statusGroups = createEmptyStatusGroups,
      fileStatuses = [\<lparr>fs_path = ''a.txt'', fs_status = ''M'', fs_rename = None\<rparr>,
                      \<lparr>fs_path = ''x.txt'', fs_status = ''X'', fs_rename = None\<rparr>],
      repoStatus = \<lparr>isMerge = False\<rparr>, resolveStatuses = None\<rparr>"

text \<open>
  The partitions \<open>groupStatuses\<close> returns on the examples (proved below). Each resource
  is owned by the group of the previous partition that the routing chose.
\<close>

definition ex_duplicate_groups :: IStatusGroups where
  "ex_duplicate_groups =
     \<lparr>conflict = emptyGroup ConflictID,
      staging = emptyGroup StagingID,
      merge = emptyGroup MergeID,
      working = ResourceGroup WorkingID
                  [Resource (emptyGroup WorkingID) ''/repo/a.txt'' MODIFIED NONE None]
                  [''/repo/a.txt'' \<mapsto> True],
      untracked = ResourceGroup UntrackedID
                    [Resource (emptyGroup UntrackedID) ''/repo/a.txt'' UNTRACKED NONE None]
                    [''/repo/a.txt'' \<mapsto> True]\<rparr>"

definition ex_rename_groups :: IStatusGroups where
  "ex_rename_groups =
     \<lparr>conflict = emptyGroup ConflictID,
      staging = ResourceGroup StagingID
                  [Resource ex_staging_a ''/repo/a.txt'' DELETED NONE None]
                  [''/repo/a.txt'' \<mapsto> True],
      merge = emptyGroup MergeID,
      working = ResourceGroup WorkingID
                  [Resource (emptyGroup WorkingID) ''/repo/b.txt'' RENAMED NONE
                     (Some ''/repo/a.txt'')]
                  [''/repo/a.txt'' \<mapsto> True],
      untracked = emptyGroup UntrackedID\<rparr>"

definition ex_merge_groups :: IStatusGroups where
  "ex_merge_groups =
     \<lparr>conflict = ResourceGroup ConflictID
                   [Resource (emptyGroup ConflictID) ''/repo/c.txt'' DELETED UNRESOLVED None]
                   [''/repo/c.txt'' \<mapsto> True],
      staging = emptyGroup StagingID,
      merge = ResourceGroup MergeID
                [Resource (emptyGroup MergeID) ''/repo/a.txt'' MODIFIED RESOLVED None,
                 Resource (emptyGroup MergeID) ''/repo/d.txt'' DELETED NONE None]
                [''/repo/a.txt'' \<mapsto> True, ''/repo/d.txt'' \<mapsto> True],
      working = emptyGroup WorkingID,
      untracked = ResourceGroup UntrackedID
                    [Resource (emptyGroup UntrackedID) ''/repo/n.txt'' UNTRACKED NONE None]
                    [''/repo/n.txt'' \<mapsto> True]\<rparr>"

definition ex_refresh_groups :: IStatusGroups where
  "ex_refresh_groups =
     \<lparr>conflict = emptyGroup ConflictID,
      staging = ResourceGroup StagingID
                  [Resource ex_staging_a ''/repo/a.txt'' MODIFIED NONE None]
                  [''/repo/a.txt'' \<mapsto> True],
      merge = emptyGroup MergeID,
      working = ResourceGroup WorkingID
                  [Resource (emptyGroup WorkingID) ''/repo/b.txt'' MODIFIED NONE None]
                  [''/repo/b.txt'' \<mapsto> True],
      untracked = ResourceGroup UntrackedID
                    [Resource (emptyGroup UntrackedID) ''/repo/n.txt'' UNTRACKED NONE None]
                    [''/repo/n.txt'' \<mapsto> True]\<rparr>"

text \<open>
  For the recombination examples: a resource list with \<open>a.txt\<close> and a renamed
  \<open>c.txt\<close> whose rename source is \<open>b.txt\<close>, and what \<open>intersect\<close> returns for
  \<open>ex_staging_a\<close> and that list (proved below).
\<close>

definition ex_resources :: "Resource list" where
  "ex_resources =
     [Resource (emptyGroup WorkingID) ''/repo/a.txt'' MODIFIED NONE None,
      Resource (emptyGroup WorkingID) ''/repo/c.txt'' RENAMED RESOLVED (Some ''/repo/b.txt'')]"

definition ex_intersect_group :: ResourceGroup where
  "ex_intersect_group =
     ResourceGroup StagingID
       [Resource (emptyGroup StagingID) ''/repo/a.txt'' MODIFIED NONE None,
        Resource ex_staging_a ''/repo/b.txt'' RENAMED RESOLVED None]
       [''/repo/a.txt'' \<mapsto> True, ''/repo/b.txt'' \<mapsto> True]"

section \<open>Operation tracker (model.ts)\<close>

datatype Operation =
    Status | Add | RevertFiles | Commit | Clean | Branch | Update | Rollback
  | RollbackDryRun | Pull | Push | Sync | Init | Show | Stage | GetCommitTemplate
  | Resolve | Unresolve | Parents | Forget | Merge | AddRemove | SetBookmark
  | RemoveBookmark | Annotate

text \<open>
  The values of \<open>enum Operation\<close> are \<open>1 << k\<close>; \<open>Operation_shift\<close> is the \<open>k\<close> of each
  member (16 is commented out in the source). JavaScript's bitwise operators work on
  32-bit integers, so the mask is a 32-bit word.
\<close>

fun Operation_shift :: "Operation \<Rightarrow> nat" where
  "Operation_shift Status = 0"
| "Operation_shift Add = 1"
| "Operation_shift RevertFiles = 2"
| "Operation_shift Commit = 3"
| "Operation_shift Clean = 4"
| "Operation_shift Branch = 5"
| "Operation_shift Update = 6"
| "Operation_shift Rollback = 7"
| "Operation_shift RollbackDryRun = 8"
| "Operation_shift Pull = 9"
| "Operation_shift Push = 10"
| "Operation_shift Sync = 11"
| "Operation_shift Init = 12"
| "Operation_shift Show = 13"
| "Operation_shift Stage = 14"
| "Operation_shift GetCommitTemplate = 15"
| "Operation_shift Resolve = 17"
| "Operation_shift Unresolve = 18"
| "Operation_shift Parents = 19"
| "Operation_shift Forget = 20"
| "Operation_shift Merge = 21"
| "Operation_shift AddRemove = 22"
| "Operation_shift SetBookmark = 23"
| "Operation_shift RemoveBookmark = 24"
| "Operation_shift Annotate = 25"

definition Operation_value :: "Operation \<Rightarrow> 32 word" where
  "Operation_value operation = push_bit (Operation_shift operation) 1"

datatype OperationsImpl = OperationsImpl (operations: "32 word")

definition start :: "OperationsImpl \<Rightarrow> Operation \<Rightarrow> OperationsImpl" where
  "start t operation = OperationsImpl (operations t OR Operation_value operation)"

definition end_op :: "OperationsImpl \<Rightarrow> Operation \<Rightarrow> OperationsImpl" where
  "end_op t operation = OperationsImpl (operations t AND NOT (Operation_value operation))"

definition isRunning :: "OperationsImpl \<Rightarrow> Operation \<Rightarrow> bool" where
  "isRunning t operation = (operations t AND Operation_value operation \<noteq> 0)"

definition isIdle :: "OperationsImpl \<Rightarrow> bool" where
  "isIdle t = (operations t = 0)"

section \<open>Repository model (model.ts)\<close>

text \<open>
  JavaScript numbers are IEEE 754 binary64 values, taken here as the rationals they denote.
  \<open>round_binary64 x\<close> is the binary64 value nearest to \<open>x\<close>, ties to the even
  significand, for \<open>1 \<le> x < 2 ^ 1024\<close> (every value below is in that range, so
  neither subnormals nor overflow arise): with \<open>2 ^ e \<le> x < 2 ^ (e + 1)\<close> the
  significand has 53 bits and the spacing is \<open>2 ^ (e - 52)\<close>. \<open>binary64_mult\<close> is the
  product of two binary64 values, \<open>binary64_1_4\<close> the literal \<open>1.4\<close>.
\<close>

fun exponent2 :: "nat \<Rightarrow> nat" where
  "exponent2 n = (if n < 2 then 0 else Suc (exponent2 (n div 2)))"

declare exponent2.simps [simp del]

definition round_binary64 :: "rat \<Rightarrow> rat" where
  "round_binary64 x =
     (let e = exponent2 (nat \<lfloor>x\<rfloor>);
          ulp = (if 52 \<le> e then 2 ^ (e - 52) else 1 / 2 ^ (52 - e));
          q = x / ulp;
          n = \<lfloor>q\<rfloor>;
          m = (if q - of_int n < 1 / 2 then n
               else if 1 / 2 < q - of_int n then n + 1
               else if even n then n else n + 1)
      in of_int m * ulp)"

definition binary64_mult :: "rat \<Rightarrow> rat \<Rightarrow> rat" where
  "binary64_mult a b = round_binary64 (a * b)"

definition binary64_1_4 :: rat where
  "binary64_1_4 = round_binary64 1.4"

text \<open>\<open>millis *= 1.4\<close>\<close>

definition times_1_4 :: "rat \<Rightarrow> rat" where
  "times_1_4 millis = binary64_mult millis binary64_1_4"

text \<open>
  \<open>Model.whenUnlocked\<close>. \<open>lockExists k\<close> is the outcome of the check of
  \<open>.hg/index.lock\<close> made after \<open>k\<close> retries; the result is the final retry count and
  the delays passed to \<open>timeout\<close>, in order.
\<close>

function whenUnlocked_loop :: "(nat \<Rightarrow> bool) \<Rightarrow> rat \<Rightarrow> nat \<Rightarrow> rat list \<Rightarrow> nat \<times> rat list" where
  "whenUnlocked_loop lockExists millis retries waited =
     (if retries < 10 \<and> lockExists retries
      then (let retries' = retries + 1;
                millis' = times_1_4 millis
            in whenUnlocked_loop lockExists millis' retries' (waited @ [millis']))
      else (retries, waited))"
  by pat_completeness auto
termination
  by (relation "measure (\<lambda>(lockExists, millis, retries, waited). 10 - retries)") auto

declare whenUnlocked_loop.simps [simp del]

definition whenUnlocked :: "(nat \<Rightarrow> bool) \<Rightarrow> nat \<times> rat list" where
  "whenUnlocked lockExists = whenUnlocked_loop lockExists 100 0 []"

text \<open>
  \<open>_syncCounts\<close> and the two delayed counters. The counters are integers in the model
  (a count of changesets). \<open>expectedDelta\<close> is optional with default \<open>0\<close>; \<open>confirmed\<close> is
  the outcome of \<open>createSyncOptions\<close> and \<open>repository.countIncoming\<close> (or
  \<open>countOutgoing\<close>) after the delay. The result is the outcome, the final counters and the
  counters shown at each firing of \<open>onDidChangeInOutState\<close>.
\<close>

record SyncCounts =
  incoming :: int
  outgoing :: int

definition countIncoming_immediate :: "SyncCounts \<Rightarrow> int \<Rightarrow> SyncCounts \<times> SyncCounts list" where
  "countIncoming_immediate s expectedDelta =
     (if expectedDelta \<noteq> 0
      then (let s' = s\<lparr>incoming := max 0 (incoming s + expectedDelta)\<rparr> in (s', [s']))
      else (s, []))"

definition countOutgoing_immediate :: "SyncCounts \<Rightarrow> int \<Rightarrow> SyncCounts \<times> SyncCounts list" where
  "countOutgoing_immediate s expectedDelta =
     (if expectedDelta \<noteq> 0
      then (let s' = s\<lparr>outgoing := max 0 (outgoing s + expectedDelta)\<rparr> in (s', [s']))
      else (s, []))"

definition countIncomingAfterDelay ::
  "SyncCounts \<Rightarrow> int option \<Rightarrow> error + int \<Rightarrow> (error + unit) \<times> SyncCounts \<times> SyncCounts list" where
  "countIncomingAfterDelay s expectedDelta confirmed =
     (let (s1, fired) = countIncoming_immediate s (case expectedDelta of None \<Rightarrow> 0 | Some d \<Rightarrow> d)
      in case confirmed of
           Inl e \<Rightarrow> (Inl e, s1, fired)
         | Inr n \<Rightarrow> (let s2 = s1\<lparr>incoming := n\<rparr> in (Inr (), s2, fired @ [s2])))"

definition countOutgoingAfterDelay ::
  "SyncCounts \<Rightarrow> int option \<Rightarrow> error + int \<Rightarrow> (error + unit) \<times> SyncCounts \<times> SyncCounts list" where
  "countOutgoingAfterDelay s expectedDelta confirmed =
     (let (s1, fired) = countOutgoing_immediate s (case expectedDelta of None \<Rightarrow> 0 | Some d \<Rightarrow> d)
      in case confirmed of
           Inl e \<Rightarrow> (Inl e, s1, fired)
         | Inr n \<Rightarrow> (let s2 = s1\<lparr>outgoing := n\<rparr> in (Inr (), s2, fired @ [s2])))"


section \<open>Resource: effective location\<close>

text \<open>
  C8. With a rename source set, \<open>resourceUri\<close> returns the rename source exactly when the
  status is MODIFIED, RENAMED or ADDED, and throws for every other status; with no rename
  source it returns the resource's own location.
\<close>

theorem resourceUri_rename_resolution:
  "(renameResourceUri r = Some ru \<longrightarrow>
      (resourceUri r = Inr ru) = (status r = MODIFIED \<or> status r = RENAMED \<or> status r = ADDED) \<and>
      (\<not> (status r = MODIFIED \<or> status r = RENAMED \<or> status r = ADDED) \<longrightarrow>
         resourceUri r = Inl (RenamedUnexpectedStatus (status r)))) \<and>
   (renameResourceUri r = None \<longrightarrow> resourceUri r = Inr (original r))"
  by (auto simp add: resourceUri_def)

theorem resourceUri_rename_resolution_witness:
  "resourceUri (Resource (emptyGroup WorkingID) ''file:///repo/b.txt'' RENAMED NONE (Some ''file:///repo/a.txt''))
     = Inr ''file:///repo/a.txt'' \<and>
   resourceUri (Resource (emptyGroup WorkingID) ''file:///repo/b.txt'' DELETED NONE (Some ''file:///repo/a.txt''))
     = Inl (RenamedUnexpectedStatus DELETED) \<and>
   resourceUri (Resource (emptyGroup WorkingID) ''file:///repo/b.txt'' DELETED NONE None)
     = Inr ''file:///repo/b.txt''"
  using
    resourceUri_rename_resolution
      [of "(Resource (emptyGroup WorkingID) ''file:///repo/b.txt'' RENAMED NONE (Some ''file:///repo/a.txt''))"
          "''file:///repo/a.txt''"]
    resourceUri_rename_resolution
      [of "(Resource (emptyGroup WorkingID) ''file:///repo/b.txt'' DELETED NONE (Some ''file:///repo/a.txt''))"
          "''file:///repo/a.txt''"]
    resourceUri_rename_resolution
      [of "(Resource (emptyGroup WorkingID) ''file:///repo/b.txt'' DELETED NONE None)"]
  by simp

section \<open>Operation tracker\<close>

lemma end_start_eq_end: "end_op (start t op) op = end_op t op"
  by (auto simp add: end_op_def start_def bit_eq_iff bit_simps)

lemma word_and_not_self_iff: "((m::32 word) AND NOT v = m) = (m AND v = 0)"
  by (auto simp add: bit_eq_iff bit_simps)

lemma Operation_shift_less: "Operation_shift op < 32"
  by (cases op) simp_all

lemma Operation_shift_inj: "Operation_shift a = Operation_shift b \<Longrightarrow> a = b"
  by (cases a; cases b; simp)

lemma and_exp_eq_exp_iff_bit: "k < 32 \<Longrightarrow> ((m::32 word) AND 2 ^ k = 2 ^ k) = bit m k"
proof
  assume k: "k < 32" and "m AND 2 ^ k = 2 ^ k"
  then have "bit (m AND 2 ^ k) k" by (simp add: bit_simps)
  then show "bit m k" by (simp add: bit_simps)
next
  assume k: "k < 32" and "bit m k"
  then show "m AND 2 ^ k = 2 ^ k"
    by (intro bit_word_eqI) (auto simp add: bit_simps)
qed

lemma isRunning_bit: "isRunning t op = bit (operations t) (Operation_shift op)"
  by (simp add: isRunning_def Operation_value_def and_exp_eq_0_iff_not_bit)

lemma isRunning_start: "isRunning (start t op) op' = (isRunning t op' \<or> op' = op)"
  using Operation_shift_less[of op] Operation_shift_less[of op'] Operation_shift_inj[of op' op]
  by (auto simp add: isRunning_bit start_def Operation_value_def bit_simps)

lemma isRunning_end: "isRunning (end_op t op) op' = (isRunning t op' \<and> op' \<noteq> op)"
  using Operation_shift_less[of op] Operation_shift_less[of op'] Operation_shift_inj[of op' op]
  by (auto simp add: isRunning_bit end_op_def Operation_value_def bit_simps)

text \<open>
  C6, as the code has it. \<open>start(op).end(op)\<close> is \<open>end(op)\<close>: it gives the tracker back
  exactly when \<open>op\<close> was not running before. \<open>isRunning(op)\<close> holds exactly when the bit of
  \<open>op\<close> is set in the mask, that is for the operations started and not ended since.
  \<open>start\<close> and \<open>end\<close> are functions from tracker values to tracker values.
\<close>

theorem operations_start_end:
  "end_op (start t op) op = end_op t op \<and>
   (end_op (start t op) op = t) = (\<not> isRunning t op) \<and>
   isRunning t op = (operations t AND Operation_value op = Operation_value op) \<and>
   isRunning (start t op) op' = (isRunning t op' \<or> op' = op) \<and>
   isRunning (end_op t op) op' = (isRunning t op' \<and> op' \<noteq> op) \<and>
   \<not> isRunning (OperationsImpl 0) op"
proof -
  have a: "end_op (start t op) op = end_op t op" by (rule end_start_eq_end)
  have b: "(end_op (start t op) op = t) = (\<not> isRunning t op)"
    unfolding a by (cases t) (simp add: end_op_def isRunning_def word_and_not_self_iff)
  have c: "isRunning t op = (operations t AND Operation_value op = Operation_value op)"
    by (simp add: isRunning_bit Operation_value_def and_exp_eq_exp_iff_bit Operation_shift_less)
  have d: "\<not> isRunning (OperationsImpl 0) op" by (simp add: isRunning_def)
  from a b c d isRunning_start isRunning_end show ?thesis by blast
qed

theorem operations_start_end_witness:
  "\<not> isRunning (OperationsImpl 0) Commit \<and>
   end_op (start (OperationsImpl 0) Commit) Commit = OperationsImpl 0 \<and>
   isRunning (start (OperationsImpl 0) Commit) Commit \<and>
   \<not> isRunning (start (OperationsImpl 0) Commit) Push"
  using operations_start_end[of "OperationsImpl 0" Commit Commit]
    operations_start_end[of "OperationsImpl 0" Commit Push]
    operations_start_end[of "OperationsImpl 0" Push Push]
  by blast

text \<open>
  C6 as stated fails: with \<open>Status\<close> already running, \<open>start(Status).end(Status)\<close> leaves
  an idle tracker, not the prior one.
\<close>

theorem operations_start_end_counterexample:
  "isRunning (OperationsImpl 1) Status \<and>
   end_op (start (OperationsImpl 1) Status) Status = OperationsImpl 0 \<and>
   end_op (start (OperationsImpl 1) Status) Status \<noteq> OperationsImpl 1"
  by (simp add: end_op_def start_def isRunning_def Operation_value_def)

section \<open>Index-lock wait\<close>

lemma whenUnlocked_loop_spec:
  "retries \<le> 10 \<Longrightarrow> whenUnlocked_loop ex millis retries waited = (n, ws) \<Longrightarrow>
   retries \<le> n \<and> n \<le> 10 \<and> (\<forall>k. retries \<le> k \<and> k < n \<longrightarrow> ex k) \<and> (n < 10 \<longrightarrow> \<not> ex n) \<and>
   ws = waited @ map (\<lambda>k. (times_1_4 ^^ (k + 1)) millis) [0..<n - retries]"
proof (induction ex millis retries waited rule: whenUnlocked_loop.induct)
  case (1 ex millis retries waited)
  let ?f = "times_1_4"
  note unfold = whenUnlocked_loop.simps[of ex millis retries waited]
  show ?case
  proof (cases "retries < 10 \<and> ex retries")
    case True
    with "1.prems"(2) have run:
      "whenUnlocked_loop ex (?f millis) (retries + 1) (waited @ [?f millis]) = (n, ws)"
      by (simp add: unfold Let_def)
    from True have le: "retries + 1 \<le> 10" by simp
    from "1.IH"[OF True refl refl le run]
    have ih: "retries + 1 \<le> n" "n \<le> 10" "\<forall>k. retries + 1 \<le> k \<and> k < n \<longrightarrow> ex k"
      "n < 10 \<longrightarrow> \<not> ex n"
      "ws = (waited @ [?f millis]) @
            map (\<lambda>k. (?f ^^ (k + 1)) (?f millis)) [0..<n - (retries + 1)]"
      by auto
    have all: "\<forall>k. retries \<le> k \<and> k < n \<longrightarrow> ex k"
    proof (intro allI impI)
      fix k assume "retries \<le> k \<and> k < n"
      then have "k = retries \<or> (retries + 1 \<le> k \<and> k < n)" by arith
      with True ih(3) show "ex k" by blast
    qed
    from ih(1) have d: "n - retries = Suc (n - (retries + 1))" by arith
    have "map (\<lambda>k. (?f ^^ (k + 1)) millis) [0..<Suc d]
          = ?f millis # map (\<lambda>k. (?f ^^ (k + 1)) (?f millis)) [0..<d]" for d
      by (simp add: map_upt_Suc funpow_swap1 del: upt_Suc funpow.simps) (simp add: funpow_swap1)
    with ih(5) d have "ws = waited @ map (\<lambda>k. (?f ^^ (k + 1)) millis) [0..<n - retries]"
      by simp
    with ih all show ?thesis by simp
  next
    case False
    with "1.prems"(2) have "n = retries" "ws = waited" by (auto simp add: unfold)
    with False "1.prems"(1) show ?thesis by auto
  qed
qed

text \<open>
  The ten delays when the lock file never goes away: 140, 196, 274.4,
  384.15999999999997, 537.824, 752.9535999999999, 1054.13504, 1475.7890559999998,
  2066.1046783999996 and 2892.5465497599994, as the exact values of these binary64
  numbers.
\<close>

lemma whenUnlocked_always_locked:
  "whenUnlocked (\<lambda>k. True) =
     (10, [140, 196, 2413647925293875 / 8796093022208, 3379107095411425 / 8796093022208,
           4730749933575995 / 8796093022208, 6623049907006393 / 8796093022208,
           4636134934904475 / 4398046511104, 6490588908866265 / 4398046511104,
           4543412236206385 / 2199023255552, 6360777130688939 / 2199023255552])"
  by code_simp

lemma delays_close:
  assumes "k < 10"
  shows "\<bar>(times_1_4 ^^ (k + 1)) 100 - 100 * 1.4 ^ (k + 1)\<bar> < 1 / 10 ^ 12"
proof -
  let ?f = "times_1_4"
  let ?ds = "[140, 196, 2413647925293875 / 8796093022208, 3379107095411425 / 8796093022208,
           4730749933575995 / 8796093022208, 6623049907006393 / 8796093022208,
           4636134934904475 / 4398046511104, 6490588908866265 / 4398046511104,
           4543412236206385 / 2199023255552, 6360777130688939 / 2199023255552] :: rat list"
  from whenUnlocked_loop_spec[of 0 "\<lambda>k. True" 100 "[]" 10 ?ds] whenUnlocked_always_locked
  have eq: "?ds = map (\<lambda>k. (?f ^^ (k + 1)) 100) [0..<10]"
    by (simp add: whenUnlocked_def)
  from assms have "(?f ^^ (k + 1)) 100 = ?ds ! k"
    by (subst eq) (simp del: upt_Suc funpow.simps)
  moreover from assms have "k \<in> {0, 1, 2, 3, 4, 5, 6, 7, 8, 9}" by auto
  then have "\<bar>?ds ! k - 100 * 1.4 ^ (k + 1)\<bar> < 1 / 10 ^ 12"
    by (elim insertE) (simp_all add: abs_if power_divide)
  ultimately show ?thesis by simp
qed

text \<open>
  C7, as the code has it. \<open>whenUnlocked\<close> always returns (the loop is a total function);
  it makes \<open>n \<le> 10\<close> retries, one for each check that found the lock file, and stops
  at the first check that does not find it or after the tenth retry, whatever an eleventh
  check would say. \<open>millis\<close> starts at 100 and is multiplied by 1.4, in binary64
  arithmetic, before each wait: the \<open>k\<close>-th wait is 100 multiplied \<open>k\<close> times by 1.4,
  which is within \<open>1 / 10 ^ 12\<close> of \<open>100 * 1.4 ^ k\<close>, and the first wait is 140 ms.
\<close>

theorem whenUnlocked_backoff:
  "whenUnlocked lockExists = (n, ws) \<Longrightarrow>
   n \<le> 10 \<and> (\<forall>k<n. lockExists k) \<and> (n < 10 \<longrightarrow> \<not> lockExists n) \<and>
   ws = map (\<lambda>k. (times_1_4 ^^ (k + 1)) 100) [0..<n] \<and>
   (\<forall>k<n. \<bar>ws ! k - 100 * 1.4 ^ (k + 1)\<bar> < 1 / 10 ^ 12)"
proof -
  assume run: "whenUnlocked lockExists = (n, ws)"
  from whenUnlocked_loop_spec[of 0 lockExists 100 "[]" n ws] run
  have a: "n \<le> 10" "\<forall>k<n. lockExists k" "n < 10 \<longrightarrow> \<not> lockExists n"
    and ws: "ws = map (\<lambda>k. (times_1_4 ^^ (k + 1)) 100) [0..<n]"
    by (simp_all add: whenUnlocked_def)
  have "\<bar>ws ! k - 100 * 1.4 ^ (k + 1)\<bar> < 1 / 10 ^ 12" if "k < n" for k
  proof -
    from that a(1) have "k < 10" by simp
    from delays_close[OF this] that show ?thesis by (simp add: ws del: funpow.simps)
  qed
  with a ws show ?thesis by blast
qed

lemma whenUnlocked_two_checks: "whenUnlocked (\<lambda>k. k < 2) = (2, [140, 196])"
  by code_simp

theorem whenUnlocked_backoff_witness:
  "whenUnlocked (\<lambda>k. k < 2) = (2, [140, 196]) \<and>
   (2::nat) \<le> 10 \<and> \<not> (2::nat) < 2 \<and>
   [140, 196] = map (\<lambda>k. (times_1_4 ^^ (k + 1)) 100) [0..<2::nat]"
  using whenUnlocked_backoff[OF whenUnlocked_two_checks] whenUnlocked_two_checks by simp

text \<open>
  C7 as stated fails on the initial wait: with the lock file present throughout, the first
  delay passed to \<open>timeout\<close> is 140 ms, not 100 ms (and the tenth retry ends the wait).
\<close>

theorem whenUnlocked_initial_wait_counterexample:
  "fst (whenUnlocked (\<lambda>k. True)) = 10 \<and>
   hd (snd (whenUnlocked (\<lambda>k. True))) = 140 \<and>
   hd (snd (whenUnlocked (\<lambda>k. True))) \<noteq> 100"
  by (simp add: whenUnlocked_always_locked)

section \<open>Sync counters\<close>

text \<open>
  C9. With a non-zero delta, \<open>countIncomingAfterDelay\<close> and \<open>countOutgoingAfterDelay\<close>
  first set and show the counter \<open>max(0, counter + delta)\<close>, whatever the sign of the
  delta and whether the confirming query then succeeds (the confirmed count overwrites it)
  or fails (it stays). A zero or absent delta shows nothing and leaves the counter as it
  is, which is \<open>max(0, counter + 0)\<close> for a counter that is not negative. No counter
  shown or left by the immediate update is negative.
\<close>

theorem sync_count_optimistic_clamp:
  "(d \<noteq> 0 \<longrightarrow>
      countIncomingAfterDelay s (Some d) (Inr n)
        = (Inr (), s\<lparr>incoming := n\<rparr>,
           [s\<lparr>incoming := max 0 (incoming s + d)\<rparr>, s\<lparr>incoming := n\<rparr>]) \<and>
      countIncomingAfterDelay s (Some d) (Inl e)
        = (Inl e, s\<lparr>incoming := max 0 (incoming s + d)\<rparr>,
           [s\<lparr>incoming := max 0 (incoming s + d)\<rparr>]) \<and>
      countOutgoingAfterDelay s (Some d) (Inr n)
        = (Inr (), s\<lparr>outgoing := n\<rparr>,
           [s\<lparr>outgoing := max 0 (outgoing s + d)\<rparr>, s\<lparr>outgoing := n\<rparr>]) \<and>
      countOutgoingAfterDelay s (Some d) (Inl e)
        = (Inl e, s\<lparr>outgoing := max 0 (outgoing s + d)\<rparr>,
           [s\<lparr>outgoing := max 0 (outgoing s + d)\<rparr>])) \<and>
   countIncomingAfterDelay s (Some 0) (Inr n) = (Inr (), s\<lparr>incoming := n\<rparr>, [s\<lparr>incoming := n\<rparr>]) \<and>
   countIncomingAfterDelay s (Some 0) (Inl e) = (Inl e, s, []) \<and>
   countOutgoingAfterDelay s (Some 0) (Inr n) = (Inr (), s\<lparr>outgoing := n\<rparr>, [s\<lparr>outgoing := n\<rparr>]) \<and>
   countOutgoingAfterDelay s (Some 0) (Inl e) = (Inl e, s, []) \<and>
   countIncomingAfterDelay s None c = countIncomingAfterDelay s (Some 0) c \<and>
   countOutgoingAfterDelay s None c = countOutgoingAfterDelay s (Some 0) c \<and>
   (0 \<le> incoming s \<longrightarrow>
      fst (snd (countIncomingAfterDelay s (Some d) (Inl e)))
        = s\<lparr>incoming := max 0 (incoming s + d)\<rparr>) \<and>
   (0 \<le> outgoing s \<longrightarrow>
      fst (snd (countOutgoingAfterDelay s (Some d) (Inl e)))
        = s\<lparr>outgoing := max 0 (outgoing s + d)\<rparr>) \<and>
   (\<forall>x\<in>set (snd (snd (countIncomingAfterDelay s (Some d) (Inl e)))). 0 \<le> incoming x) \<and>
   (\<forall>x\<in>set (snd (snd (countOutgoingAfterDelay s (Some d) (Inl e)))). 0 \<le> outgoing x)"
  by (simp add: countIncoming_immediate_def countOutgoing_immediate_def
      countIncomingAfterDelay_def countOutgoingAfterDelay_def Let_def)

theorem sync_count_optimistic_clamp_witness:
  "countIncomingAfterDelay \<lparr>incoming = 2, outgoing = 1\<rparr> (Some (- 5)) (Inr 7)
     = (Inr (), \<lparr>incoming = 7, outgoing = 1\<rparr>,
        [\<lparr>incoming = 0, outgoing = 1\<rparr>, \<lparr>incoming = 7, outgoing = 1\<rparr>]) \<and>
   countOutgoingAfterDelay \<lparr>incoming = 2, outgoing = 1\<rparr> (Some (- 5)) (Inl (HgError ''abort''))
     = (Inl (HgError ''abort''), \<lparr>incoming = 2, outgoing = 0\<rparr>,
        [\<lparr>incoming = 2, outgoing = 0\<rparr>]) \<and>
   fst (snd (countIncomingAfterDelay \<lparr>incoming = 2, outgoing = 1\<rparr> (Some 0) (Inl (HgError ''abort''))))
     = \<lparr>incoming = 2, outgoing = 1\<rparr>"
  using sync_count_optimistic_clamp
    [of "- 5" "\<lparr>incoming = 2, outgoing = 1\<rparr>" 7 "HgError ''abort''"]
    sync_count_optimistic_clamp
    [of 0 "\<lparr>incoming = 2, outgoing = 1\<rparr>" 7 "HgError ''abort''"]
  by simp

section \<open>Status reconciler: what the loops push\<close>

lemma arrayById_push:
  "arrayById (push g r a) g' = (if g' = g then arrayById a g' @ [r] else arrayById a g')"
  by (cases g; cases g'; simp)

lemma arrayById_pushAll:
  "arrayById (pushAll a grs) g = arrayById a g @ map snd (filter (\<lambda>gr. fst gr = g) grs)"
  unfolding pushAll_def
  by (induction grs arbitrary: a) (simp_all add: arrayById_push)

lemma pushAll_Cons: "pushAll a (gr # grs) = pushAll (push (fst gr) (snd gr) a) grs"
  by (simp add: pushAll_def)

lemma fileStatuses_loop_char:
  "fileStatuses_loop pf p raws (a, seen) = Inr (a', seen') \<Longrightarrow>
   \<exists>grs. list_all2 (emitted_first pf p) raws grs \<and> a' = pushAll a grs \<and>
     (\<forall>u. (seen' u \<noteq> None) = (seen u \<noteq> None \<or> u \<in> location pf p ` set raws))"
proof (induction raws arbitrary: a seen)
  case Nil
  then show ?case by (simp add: pushAll_def)
next
  case (Cons raw rest)
  let ?u = "location pf p raw"
  let ?ms = "lookup_mergeStatus (resolveStatuses p) raw"
  let ?ren = "case fs_rename raw of None \<Rightarrow> None
               | Some s \<Rightarrow> if s \<noteq> [] then Some (fileUri pf (respositoryRoot p) s) else None"
  from Cons.prems obtain g st where
    ch: "chooseResourcesAndGroup p ?u (fs_status raw) ?ms (truthy (fs_rename raw)) = Inr (g, st)"
    by (auto simp add: Let_def split: sum.splits)
  let ?r = "Resource (groupById (statusGroups p) g) ?u st ?ms ?ren"
  from Cons.prems ch have
    rest: "fileStatuses_loop pf p rest (push g ?r a, seen(?u \<mapsto> True)) = Inr (a', seen')"
    by (simp add: Let_def)
  from Cons.IH[OF rest] obtain grs where
    grs: "list_all2 (emitted_first pf p) rest grs" "a' = pushAll (push g ?r a) grs"
      "\<forall>u. (seen' u \<noteq> None) = ((seen(?u \<mapsto> True)) u \<noteq> None \<or> u \<in> location pf p ` set rest)"
    by blast
  have "emitted_first pf p raw (g, ?r)" using ch by (simp add: emitted_first_def)
  with grs(1) have 1: "list_all2 (emitted_first pf p) (raw # rest) ((g, ?r) # grs)" by simp
  have 2: "a' = pushAll a ((g, ?r) # grs)" using grs(2) by (simp add: pushAll_Cons)
  have 3: "\<forall>u. (seen' u \<noteq> None) = (seen u \<noteq> None \<or> u \<in> location pf p ` set (raw # rest))"
    using grs(3) by auto
  from 1 2 3 show ?case by blast
qed

lemma resolveStatuses_loop_char:
  "resolveStatuses_loop pf p seen rs a = Inr a' \<Longrightarrow>
   \<exists>grs. list_all2 (emitted_second pf p) (filter (\<lambda>raw. seen (location pf p raw) = None) rs) grs \<and>
     a' = pushAll a grs"
proof (induction rs arbitrary: a)
  case Nil
  then show ?case by (simp add: pushAll_def)
next
  case (Cons raw rest)
  let ?u = "location pf p raw"
  show ?case
  proof (cases "seen ?u \<noteq> None")
    case True
    with Cons.prems have "resolveStatuses_loop pf p seen rest a = Inr a'"
      by (simp add: Let_def)
    from Cons.IH[OF this] True show ?thesis by auto
  next
    case False
    let ?ms = "toMergeStatus (fs_status raw)"
    let ?c = "if existsSync pf ?u then ''C'' else ''R''"
    from Cons.prems False obtain g st where
      ch: "chooseResourcesAndGroup p ?u ?c ?ms (truthy (fs_rename raw)) = Inr (g, st)"
      by (auto simp add: Let_def split: sum.splits)
    let ?r = "Resource (groupById (statusGroups p) g) ?u st ?ms None"
    from Cons.prems False ch have
      rest: "resolveStatuses_loop pf p seen rest (push g ?r a) = Inr a'"
      by (simp add: Let_def)
    from Cons.IH[OF rest] obtain grs where
      grs: "list_all2 (emitted_second pf p) (filter (\<lambda>raw. seen (location pf p raw) = None) rest) grs"
        "a' = pushAll (push g ?r a) grs"
      by blast
    have "emitted_second pf p raw (g, ?r)" using ch by (simp add: emitted_second_def)
    with grs(1) False have 1: "list_all2 (emitted_second pf p)
        (filter (\<lambda>raw. seen (location pf p raw) = None) (raw # rest)) ((g, ?r) # grs)" by simp
    have 2: "a' = pushAll a ((g, ?r) # grs)" using grs(2) by (simp add: pushAll_Cons)
    from 1 2 show ?thesis by blast
  qed
qed


lemma indexResources_forEach_char:
  "indexResources_forEach index rs = Inr index' \<Longrightarrow>
   (\<forall>r\<in>set rs. \<exists>u. resourceUri r = Inr u) \<and>
   (\<forall>u. (index' u \<noteq> None) = (index u \<noteq> None \<or> (\<exists>r\<in>set rs. resourceUri r = Inr u)))"
proof (induction rs arbitrary: index)
  case Nil
  then show ?case by simp
next
  case (Cons r rs)
  from Cons.prems obtain u where u: "resourceUri r = Inr u"
    and rest: "indexResources_forEach (index(u \<mapsto> True)) rs = Inr index'"
    by (auto split: sum.splits)
  from Cons.IH[OF rest] u show ?case by auto
qed

lemma indexResources_forEach_total:
  "\<forall>r\<in>set rs. \<exists>u. resourceUri r = Inr u \<Longrightarrow> \<exists>index'. indexResources_forEach index rs = Inr index'"
  by (induction rs arbitrary: index) auto

lemma newResourceGroup_char:
  "newResourceGroup gid rs = Inr g \<Longrightarrow>
   group_id g = gid \<and> resources g = rs \<and>
   (\<forall>r\<in>set rs. \<exists>u. resourceUri r = Inr u) \<and>
   (\<forall>u. includesUri g u = (\<exists>r\<in>set rs. resourceUri r = Inr u))"
  using indexResources_forEach_char[of Map.empty rs]
  by (auto simp add: newResourceGroup_def indexResources_def includesUri_def split: sum.splits)

lemma returnGroups_char:
  "returnGroups a = Inr out \<Longrightarrow> newResourceGroup g (arrayById a g) = Inr (groupById out g)"
  by (cases g) (auto simp add: returnGroups_def split: sum.splits)

lemma some_resourceUri_char:
  "some_resourceUri rs u = Inr b \<Longrightarrow> b = (\<exists>r\<in>set rs. resourceUri r = Inr u)"
  by (induction rs) (auto split: sum.splits if_splits)

lemma some_resourceUri_total:
  "\<forall>r\<in>set rs. \<exists>v. resourceUri r = Inr v \<Longrightarrow> \<exists>b. some_resourceUri rs u = Inr b"
  by (induction rs) auto

lemma arrayById_emptyArrays: "arrayById emptyArrays g = []"
  by (cases g) (simp_all add: emptyArrays_def)

lemma groupStatuses_char:
  assumes "groupStatuses pf p = Inr out"
  shows "\<exists>grs1 grs2.
     list_all2 (emitted_first pf p) (fileStatuses p) grs1 \<and>
     list_all2 (emitted_second pf p)
       (case resolveStatuses p of
          None \<Rightarrow> []
        | Some rs \<Rightarrow> filter (\<lambda>raw. location pf p raw \<notin> location pf p ` set (fileStatuses p)) rs)
       grs2 \<and>
     (\<forall>g. newResourceGroup g (map snd (filter (\<lambda>gr. fst gr = g) (grs1 @ grs2))) = Inr (groupById out g))"
proof -
  from assms obtain a seen a' where
    l1: "fileStatuses_loop pf p (fileStatuses p) (emptyArrays, Map.empty) = Inr (a, seen)" and
    l2: "(case resolveStatuses p of None \<Rightarrow> Inr a
          | Some rs \<Rightarrow> resolveStatuses_loop pf p seen rs a) = Inr a'" and
    ret: "returnGroups a' = Inr out"
    by (auto simp add: groupStatuses_def split: sum.splits prod.splits)
  from fileStatuses_loop_char[OF l1] obtain grs1 where
    g1: "list_all2 (emitted_first pf p) (fileStatuses p) grs1" "a = pushAll emptyArrays grs1"
      "\<forall>u. (seen u \<noteq> None) = (u \<in> location pf p ` set (fileStatuses p))"
    by auto
  have seen_eq: "(\<lambda>raw. seen (location pf p raw) = None)
                 = (\<lambda>raw. location pf p raw \<notin> location pf p ` set (fileStatuses p))"
  proof
    fix raw
    from g1(3) have "(seen (location pf p raw) \<noteq> None) = (location pf p raw \<in> location pf p ` set (fileStatuses p))"
      by blast
    then show "(seen (location pf p raw) = None) = (location pf p raw \<notin> location pf p ` set (fileStatuses p))"
      by blast
  qed
  have "\<exists>grs2. list_all2 (emitted_second pf p)
       (case resolveStatuses p of
          None \<Rightarrow> []
        | Some rs \<Rightarrow> filter (\<lambda>raw. location pf p raw \<notin> location pf p ` set (fileStatuses p)) rs)
       grs2 \<and> a' = pushAll a grs2"
  proof (cases "resolveStatuses p")
    case None
    with l2 show ?thesis by (simp add: pushAll_def)
  next
    case (Some rs)
    with l2 have "resolveStatuses_loop pf p seen rs a = Inr a'" by simp
    from resolveStatuses_loop_char[OF this] Some show ?thesis by (simp add: seen_eq)
  qed
  then obtain grs2 where g2: "list_all2 (emitted_second pf p)
       (case resolveStatuses p of
          None \<Rightarrow> []
        | Some rs \<Rightarrow> filter (\<lambda>raw. location pf p raw \<notin> location pf p ` set (fileStatuses p)) rs)
       grs2" "a' = pushAll a grs2"
    by blast
  have "arrayById a' g = map snd (filter (\<lambda>gr. fst gr = g) (grs1 @ grs2))" for g
    using g1(2) g2(2) by (simp add: arrayById_pushAll arrayById_emptyArrays)
  with returnGroups_char[OF ret] g1(1) g2(1) show ?thesis by metis
qed

lemma chooseResourcesAndGroup_route:
  assumes "chooseResourcesAndGroup p u c ms ren = Inr (g, st)"
  shows "switch_rawStatus c ren = Inr st \<and>
         g = (if st = IGNORED \<or> st = UNTRACKED then UntrackedID
              else if isMerge (repoStatus p) then (if ms = UNRESOLVED then ConflictID else MergeID)
              else if (\<exists>x\<in>set (resources (staging (statusGroups p))). resourceUri x = Inr u)
                   then StagingID else WorkingID)"
  using assms
  by (auto simp add: chooseResourcesAndGroup_def split: sum.splits if_splits dest: some_resourceUri_char)

lemma list_all2_right_set: "list_all2 P xs ys \<Longrightarrow> y \<in> set ys \<Longrightarrow> \<exists>x\<in>set xs. P x y"
  by (induction rule: list_all2_induct) auto

lemma list_all2_left_set: "list_all2 P xs ys \<Longrightarrow> x \<in> set xs \<Longrightarrow> \<exists>y\<in>set ys. P x y"
  by (induction rule: list_all2_induct) auto

lemma groupStatuses_resources:
  assumes "groupStatuses pf p = Inr out"
  shows "\<exists>grs1 grs2.
    list_all2 (emitted_first pf p) (fileStatuses p) grs1 \<and>
    list_all2 (emitted_second pf p)
       (case resolveStatuses p of
          None \<Rightarrow> []
        | Some rs \<Rightarrow> filter (\<lambda>raw. location pf p raw \<notin> location pf p ` set (fileStatuses p)) rs)
       grs2 \<and>
    (\<forall>g. resources (groupById out g) = map snd (filter (\<lambda>gr. fst gr = g) (grs1 @ grs2))) \<and>
    (\<forall>g u. includesUri (groupById out g) u
            = (\<exists>r\<in>set (resources (groupById out g)). resourceUri r = Inr u))"
proof -
  from groupStatuses_char[OF assms] obtain grs1 grs2 where
    a: "list_all2 (emitted_first pf p) (fileStatuses p) grs1"
    and b: "list_all2 (emitted_second pf p)
       (case resolveStatuses p of
          None \<Rightarrow> []
        | Some rs \<Rightarrow> filter (\<lambda>raw. location pf p raw \<notin> location pf p ` set (fileStatuses p)) rs)
       grs2"
    and c: "\<forall>g. newResourceGroup g (map snd (filter (\<lambda>gr. fst gr = g) (grs1 @ grs2))) = Inr (groupById out g)"
    by blast
  have d: "resources (groupById out g) = map snd (filter (\<lambda>gr. fst gr = g) (grs1 @ grs2))" for g
    using c[rule_format, of g] by (simp add: newResourceGroup_char)
  have e: "includesUri (groupById out g) u
           = (\<exists>r\<in>set (resources (groupById out g)). resourceUri r = Inr u)" for g u
    using newResourceGroup_char[OF c[rule_format, of g]] by (simp add: d)
  from a b d e show ?thesis by blast
qed

lemma emitted_first_fields:
  assumes "emitted_first pf p raw (g, r)"
  shows "chooseResourcesAndGroup p (location pf p raw) (fs_status raw)
           (lookup_mergeStatus (resolveStatuses p) raw) (truthy (fs_rename raw)) = Inr (g, status r)"
    and "resourceGroup r = groupById (statusGroups p) g"
    and "original r = location pf p raw"
    and "mergeStatus r = lookup_mergeStatus (resolveStatuses p) raw"
    and "renameResourceUri r =
           (case fs_rename raw of
              None \<Rightarrow> None
            | Some s \<Rightarrow> if s \<noteq> [] then Some (fileUri pf (respositoryRoot p) s) else None)"
proof -
  from assms have eq:
    "r = Resource (groupById (statusGroups p) g) (location pf p raw) (status r)
           (lookup_mergeStatus (resolveStatuses p) raw)
           (case fs_rename raw of
              None \<Rightarrow> None
            | Some s \<Rightarrow> if s \<noteq> [] then Some (fileUri pf (respositoryRoot p) s) else None)"
    by (simp add: emitted_first_def)
  from assms show "chooseResourcesAndGroup p (location pf p raw) (fs_status raw)
           (lookup_mergeStatus (resolveStatuses p) raw) (truthy (fs_rename raw)) = Inr (g, status r)"
    by (simp add: emitted_first_def)
  from arg_cong[OF eq, of resourceGroup] show "resourceGroup r = groupById (statusGroups p) g" by simp
  from arg_cong[OF eq, of original] show "original r = location pf p raw" by simp
  from arg_cong[OF eq, of mergeStatus] show "mergeStatus r = lookup_mergeStatus (resolveStatuses p) raw" by simp
  from arg_cong[OF eq, of renameResourceUri] show "renameResourceUri r =
           (case fs_rename raw of
              None \<Rightarrow> None
            | Some s \<Rightarrow> if s \<noteq> [] then Some (fileUri pf (respositoryRoot p) s) else None)" by simp
qed

lemma emitted_second_fields:
  assumes "emitted_second pf p raw (g, r)"
  shows "chooseResourcesAndGroup p (location pf p raw)
           (if existsSync pf (location pf p raw) then ''C'' else ''R'')
           (toMergeStatus (fs_status raw)) (truthy (fs_rename raw)) = Inr (g, status r)"
    and "resourceGroup r = groupById (statusGroups p) g"
    and "original r = location pf p raw"
    and "mergeStatus r = toMergeStatus (fs_status raw)"
    and "renameResourceUri r = None"
proof -
  from assms have eq:
    "r = Resource (groupById (statusGroups p) g) (location pf p raw) (status r)
           (toMergeStatus (fs_status raw)) None"
    by (simp add: emitted_second_def)
  from assms show "chooseResourcesAndGroup p (location pf p raw)
           (if existsSync pf (location pf p raw) then ''C'' else ''R'')
           (toMergeStatus (fs_status raw)) (truthy (fs_rename raw)) = Inr (g, status r)"
    by (simp add: emitted_second_def)
  from arg_cong[OF eq, of resourceGroup] show "resourceGroup r = groupById (statusGroups p) g" by simp
  from arg_cong[OF eq, of original] show "original r = location pf p raw" by simp
  from arg_cong[OF eq, of mergeStatus] show "mergeStatus r = toMergeStatus (fs_status raw)" by simp
  from arg_cong[OF eq, of renameResourceUri] show "renameResourceUri r = None" by simp
qed

lemma emitted_first_route:
  assumes "emitted_first pf p raw (g, r)"
  shows "switch_rawStatus (fs_status raw) (truthy (fs_rename raw)) = Inr (status r) \<and>
         original r = location pf p raw \<and>
         mergeStatus r = lookup_mergeStatus (resolveStatuses p) raw \<and>
         g = (if status r = IGNORED \<or> status r = UNTRACKED then UntrackedID
              else if isMerge (repoStatus p) then (if mergeStatus r = UNRESOLVED then ConflictID else MergeID)
              else if (\<exists>x\<in>set (resources (staging (statusGroups p))). resourceUri x = Inr (original r))
                   then StagingID else WorkingID)"
  using chooseResourcesAndGroup_route[OF emitted_first_fields(1)[OF assms]]
    emitted_first_fields(3,4)[OF assms]
  by simp

lemma emitted_second_route:
  assumes "emitted_second pf p raw (g, r)"
  shows "switch_rawStatus (if existsSync pf (location pf p raw) then ''C'' else ''R'') (truthy (fs_rename raw)) = Inr (status r) \<and>
         g = (if status r = IGNORED \<or> status r = UNTRACKED then UntrackedID
              else if isMerge (repoStatus p) then (if mergeStatus r = UNRESOLVED then ConflictID else MergeID)
              else if (\<exists>x\<in>set (resources (staging (statusGroups p))). resourceUri x = Inr (original r))
                   then StagingID else WorkingID)"
  using chooseResourcesAndGroup_route[OF emitted_second_fields(1)[OF assms]]
    emitted_second_fields(3,4)[OF assms]
  by simp

section \<open>The examples, evaluated\<close>

lemmas eval_defs = groupStatuses_def returnGroups_def newResourceGroup_def indexResources_def
  chooseResourcesAndGroup_def switch_rawStatus_def lookup_mergeStatus_def toMergeStatus_def
  location_def truthy_def resourceUri_def emptyArrays_def createEmptyStatusGroups_def
  ex_platform_def ex_staged_a_def ex_staging_a_def emptyGroup_def Let_def

lemma ex_duplicate_eval: "groupStatuses ex_platform ex_duplicate = Inr ex_duplicate_groups"
  by (simp add: eval_defs ex_duplicate_def ex_duplicate_groups_def)

lemma ex_rename_eval: "groupStatuses ex_platform ex_rename = Inr ex_rename_groups"
  by (simp add: eval_defs ex_rename_def ex_rename_groups_def)

lemma ex_merge_eval: "groupStatuses ex_platform ex_merge = Inr ex_merge_groups"
  by (auto simp add: eval_defs ex_merge_def ex_merge_groups_def)

lemma ex_refresh_eval: "groupStatuses ex_platform ex_refresh = Inr ex_refresh_groups"
  by (auto simp add: eval_defs ex_refresh_def ex_refresh_groups_def)

lemma ex_unknown_eval:
  "groupStatuses ex_platform ex_unknown = Inl (HgError ''Unknown rawStatus: X'')"
  by (simp add: eval_defs ex_unknown_def)

lemma chooseResourcesAndGroup_total:
  assumes "\<forall>x\<in>set (resources (staging (statusGroups p))). \<exists>v. resourceUri x = Inr v"
  shows "chooseResourcesAndGroup p u c ms ren =
           (case switch_rawStatus c ren of
              Inl e \<Rightarrow> Inl e
            | Inr st \<Rightarrow>
                Inr (if st = IGNORED \<or> st = UNTRACKED then UntrackedID
                     else if isMerge (repoStatus p) then
                       (if ms = UNRESOLVED then ConflictID else MergeID)
                     else if (\<exists>x\<in>set (resources (staging (statusGroups p))).
                                resourceUri x = Inr u)
                          then StagingID else WorkingID, st))"
proof (cases "switch_rawStatus c ren")
  case (Inl e)
  then show ?thesis by (simp add: chooseResourcesAndGroup_def)
next
  case (Inr st)
  from some_resourceUri_total[OF assms, of u] obtain b where
    b: "some_resourceUri (resources (staging (statusGroups p))) u = Inr b" by blast
  from some_resourceUri_char[OF b] b Inr show ?thesis
    by (simp add: chooseResourcesAndGroup_def)
qed

lemma fileStatuses_loop_total:
  assumes "\<forall>x\<in>set (resources (staging (statusGroups p))). \<exists>v. resourceUri x = Inr v"
    and "\<forall>raw\<in>set raws. fs_status raw \<in> knownCodes"
  shows "\<exists>st'. fileStatuses_loop pf p raws st = Inr st'"
  using assms(2)
proof (induction raws arbitrary: st)
  case Nil
  then show ?case by simp
next
  case (Cons raw rest)
  obtain a seen where st: "st = (a, seen)" by (cases st)
  from Cons.prems have k: "fs_status raw \<in> knownCodes"
    and r: "\<forall>raw\<in>set rest. fs_status raw \<in> knownCodes" by auto
  from k obtain s where s: "switch_rawStatus (fs_status raw) (truthy (fs_rename raw)) = Inr s"
    by (auto simp add: switch_rawStatus_def knownCodes_def)
  from chooseResourcesAndGroup_total[OF assms(1)] s obtain g where
    "chooseResourcesAndGroup p (location pf p raw) (fs_status raw)
       (lookup_mergeStatus (resolveStatuses p) raw) (truthy (fs_rename raw)) = Inr (g, s)"
    by simp
  with Cons.IH[OF r] show ?case by (simp add: st Let_def)
qed

lemma resolveStatuses_loop_total:
  assumes "\<forall>x\<in>set (resources (staging (statusGroups p))). \<exists>v. resourceUri x = Inr v"
  shows "\<exists>a'. resolveStatuses_loop pf p seen rs a = Inr a'"
proof (induction rs arbitrary: a)
  case Nil
  then show ?case by simp
next
  case (Cons raw rest)
  have "\<exists>s. switch_rawStatus (if existsSync pf (location pf p raw) then ''C'' else ''R'')
                       (truthy (fs_rename raw)) = Inr s"
    by (simp add: switch_rawStatus_def)
  then obtain s where s: "switch_rawStatus (if existsSync pf (location pf p raw) then ''C'' else ''R'')
                       (truthy (fs_rename raw)) = Inr s"
    by blast
  from chooseResourcesAndGroup_total[OF assms] s obtain g where
    "chooseResourcesAndGroup p (location pf p raw)
       (if existsSync pf (location pf p raw) then ''C'' else ''R'')
       (toMergeStatus (fs_status raw)) (truthy (fs_rename raw)) = Inr (g, s)"
    by simp
  with Cons.IH show ?case by (simp add: Let_def)
qed

lemma returnGroups_total:
  assumes "\<And>g. \<forall>r\<in>set (arrayById a g). \<exists>u. resourceUri r = Inr u"
  shows "\<exists>out. returnGroups a = Inr out"
proof -
  have "\<exists>grp. newResourceGroup g (arrayById a g) = Inr grp" for g
    using indexResources_forEach_total[OF assms[of g], of Map.empty]
    by (auto simp add: newResourceGroup_def indexResources_def)
  from this[of ConflictID] this[of MergeID] this[of StagingID] this[of WorkingID]
    this[of UntrackedID]
  show ?thesis by (auto simp add: returnGroups_def)
qed

lemma emitted_first_valid:
  assumes "emitted_first pf p raw (g, r)"
    and "truthy (fs_rename raw) \<longrightarrow> fs_status raw = ''M'' \<or> fs_status raw = ''A''"
  shows "\<exists>u. resourceUri r = Inr u"
proof (cases "truthy (fs_rename raw)")
  case False
  with emitted_first_fields(5)[OF assms(1)] have "renameResourceUri r = None"
    by (simp add: truthy_def split: option.splits)
  then show ?thesis by (simp add: resourceUri_def)
next
  case True
  from emitted_first_route[OF assms(1)] have
    "switch_rawStatus (fs_status raw) (truthy (fs_rename raw)) = Inr (status r)" by blast
  with True assms(2) have "status r = MODIFIED \<or> status r = RENAMED"
    by (auto simp add: switch_rawStatus_def)
  then show ?thesis by (auto simp add: resourceUri_def split: option.splits)
qed

lemma emitted_second_valid:
  assumes "emitted_second pf p raw (g, r)"
  shows "\<exists>u. resourceUri r = Inr u"
  using emitted_second_fields(5)[OF assms] by (simp add: resourceUri_def)

lemma groupStatuses_returns:
  assumes wf: "\<forall>x\<in>set (resources (staging (statusGroups p))). \<exists>v. resourceUri x = Inr v"
    and known: "\<forall>raw\<in>set (fileStatuses p). fs_status raw \<in> knownCodes"
    and ren: "\<forall>raw\<in>set (fileStatuses p).
                truthy (fs_rename raw) \<longrightarrow> fs_status raw = ''M'' \<or> fs_status raw = ''A''"
  shows "\<exists>out. groupStatuses pf p = Inr out"
proof -
  from fileStatuses_loop_total[OF wf known, of pf "(emptyArrays, Map.empty)"]
  obtain a seen where
    l1: "fileStatuses_loop pf p (fileStatuses p) (emptyArrays, Map.empty) = Inr (a, seen)"
    by (metis surj_pair)
  from fileStatuses_loop_char[OF l1] obtain grs1 where
    g1: "list_all2 (emitted_first pf p) (fileStatuses p) grs1" and a: "a = pushAll emptyArrays grs1"
    by blast
  let ?second = "\<lambda>a'. (case resolveStatuses p of None \<Rightarrow> Inr a
                        | Some rs \<Rightarrow> resolveStatuses_loop pf p seen rs a) = Inr a'"
  have "\<exists>a' grs2. ?second a' \<and> a' = pushAll a grs2 \<and>
          (\<forall>gr\<in>set grs2. \<exists>u. resourceUri (snd gr) = Inr u)"
  proof (cases "resolveStatuses p")
    case None
    then have "?second a \<and> a = pushAll a [] \<and>
                (\<forall>gr\<in>set []. \<exists>u. resourceUri (snd gr) = Inr u)"
      by (simp add: pushAll_def)
    then show ?thesis by blast
  next
    case (Some rs)
    from resolveStatuses_loop_total[OF wf, of pf seen rs a] obtain a' where
      l2: "resolveStatuses_loop pf p seen rs a = Inr a'" by blast
    from resolveStatuses_loop_char[OF l2] obtain grs2 where
      g2: "list_all2 (emitted_second pf p)
             (filter (\<lambda>raw. seen (location pf p raw) = None) rs) grs2"
      and a': "a' = pushAll a grs2" by blast
    have "\<exists>u. resourceUri (snd gr) = Inr u" if "gr \<in> set grs2" for gr
    proof -
      from list_all2_right_set[OF g2 that] obtain raw where "emitted_second pf p raw gr" by blast
      then have "emitted_second pf p raw (fst gr, snd gr)" by simp
      from emitted_second_valid[OF this] show ?thesis .
    qed
    with l2 a' Some show ?thesis by auto
  qed
  then obtain a' grs2 where second: "?second a'" and a': "a' = pushAll a grs2"
    and v2: "\<forall>gr\<in>set grs2. \<exists>u. resourceUri (snd gr) = Inr u" by blast
  have v1: "\<exists>u. resourceUri (snd gr) = Inr u" if "gr \<in> set grs1" for gr
  proof -
    from list_all2_right_set[OF g1 that] obtain raw where
      raw: "raw \<in> set (fileStatuses p)" "emitted_first pf p raw gr" by blast
    then have "emitted_first pf p raw (fst gr, snd gr)" by simp
    from emitted_first_valid[OF this] ren raw(1) show ?thesis by blast
  qed
  have "\<forall>r\<in>set (arrayById a' g). \<exists>u. resourceUri r = Inr u" for g
    using v1 v2 by (auto simp add: a a' arrayById_pushAll arrayById_emptyArrays)
  from returnGroups_total[OF this] obtain out where "returnGroups a' = Inr out" by blast
  with l1 second show ?thesis by (auto simp add: groupStatuses_def)
qed

text \<open>
  C1. With a previous staging group whose resources all have a location (as in every
  constructed group), \<open>chooseResourcesAndGroup\<close> returns, for a known code, the group of
  the precedence: untracked for IGNORED or UNTRACKED; otherwise, mid-merge, conflict when
  UNRESOLVED and merge when not; otherwise staging exactly when the location is the
  location of a resource of the previous staging group, working when not. On a raw status
  list of known codes whose renames sit on M or A records, \<open>groupStatuses\<close> returns a
  partition. In every partition it returns, each resource sits in the group the precedence
  gives for its status, merge status and location and is owned by the previous group of
  that name, and every raw status record has such a resource, carrying the record's
  location, mapped status and merge status.
\<close>

theorem groupStatuses_routing:
  "((\<forall>x\<in>set (resources (staging (statusGroups p))). \<exists>v. resourceUri x = Inr v) \<longrightarrow>
      chooseResourcesAndGroup p u c ms ren =
        (case switch_rawStatus c ren of
           Inl e \<Rightarrow> Inl e
         | Inr st \<Rightarrow>
             Inr (if st = IGNORED \<or> st = UNTRACKED then UntrackedID
                  else if isMerge (repoStatus p) then
                    (if ms = UNRESOLVED then ConflictID else MergeID)
                  else if (\<exists>x\<in>set (resources (staging (statusGroups p))).
                             resourceUri x = Inr u)
                       then StagingID else WorkingID, st))) \<and>
   ((\<forall>x\<in>set (resources (staging (statusGroups p))). \<exists>v. resourceUri x = Inr v) \<and>
    (\<forall>raw\<in>set (fileStatuses p).
       fs_status raw \<in> {''M'', ''R'', ''I'', ''?'', ''!'', ''A'', ''C''} \<and>
       (truthy (fs_rename raw) \<longrightarrow> fs_status raw = ''M'' \<or> fs_status raw = ''A'')) \<longrightarrow>
      (\<exists>out. groupStatuses pf p = Inr out)) \<and>
   (\<forall>out. groupStatuses pf p = Inr out \<longrightarrow>
      (\<forall>g. \<forall>r\<in>set (resources (groupById out g)).
         resourceGroup r = groupById (statusGroups p) g \<and>
         g = (if status r = IGNORED \<or> status r = UNTRACKED then UntrackedID
              else if isMerge (repoStatus p) then
                (if mergeStatus r = UNRESOLVED then ConflictID else MergeID)
              else if (\<exists>x\<in>set (resources (staging (statusGroups p))).
                         resourceUri x = Inr (original r))
                   then StagingID else WorkingID)) \<and>
      (\<forall>raw\<in>set (fileStatuses p). \<exists>g. \<exists>r\<in>set (resources (groupById out g)).
         original r = location pf p raw \<and>
         switch_rawStatus (fs_status raw) (truthy (fs_rename raw)) = Inr (status r) \<and>
         mergeStatus r = lookup_mergeStatus (resolveStatuses p) raw))"
proof -
  have R: "\<exists>out. groupStatuses pf p = Inr out"
    if "\<forall>x\<in>set (resources (staging (statusGroups p))). \<exists>v. resourceUri x = Inr v"
      and "\<forall>raw\<in>set (fileStatuses p).
       fs_status raw \<in> {''M'', ''R'', ''I'', ''?'', ''!'', ''A'', ''C''} \<and>
       (truthy (fs_rename raw) \<longrightarrow> fs_status raw = ''M'' \<or> fs_status raw = ''A'')"
    using groupStatuses_returns[of p pf] that unfolding knownCodes_def by blast
  have P: "(\<forall>g. \<forall>r\<in>set (resources (groupById out g)).
         resourceGroup r = groupById (statusGroups p) g \<and>
         g = (if status r = IGNORED \<or> status r = UNTRACKED then UntrackedID
              else if isMerge (repoStatus p) then
                (if mergeStatus r = UNRESOLVED then ConflictID else MergeID)
              else if (\<exists>x\<in>set (resources (staging (statusGroups p))).
                         resourceUri x = Inr (original r))
                   then StagingID else WorkingID)) \<and>
      (\<forall>raw\<in>set (fileStatuses p). \<exists>g. \<exists>r\<in>set (resources (groupById out g)).
         original r = location pf p raw \<and>
         switch_rawStatus (fs_status raw) (truthy (fs_rename raw)) = Inr (status r) \<and>
         mergeStatus r = lookup_mergeStatus (resolveStatuses p) raw)"
    if ok: "groupStatuses pf p = Inr out" for out
  proof -
    from groupStatuses_resources[OF ok] obtain grs1 grs2 where
      g1: "list_all2 (emitted_first pf p) (fileStatuses p) grs1" and
      g2: "list_all2 (emitted_second pf p)
         (case resolveStatuses p of
            None \<Rightarrow> []
          | Some rs \<Rightarrow> filter (\<lambda>raw. location pf p raw \<notin> location pf p ` set (fileStatuses p)) rs)
         grs2" and
      res: "\<And>g. resources (groupById out g) = map snd (filter (\<lambda>gr. fst gr = g) (grs1 @ grs2))"
      by blast
    have A: "resourceGroup r = groupById (statusGroups p) g \<and>
             g = (if status r = IGNORED \<or> status r = UNTRACKED then UntrackedID
                   else if isMerge (repoStatus p) then
                     (if mergeStatus r = UNRESOLVED then ConflictID else MergeID)
                   else if (\<exists>x\<in>set (resources (staging (statusGroups p))).
                              resourceUri x = Inr (original r))
                        then StagingID else WorkingID)"
      if "r \<in> set (resources (groupById out g))" for g r
    proof -
      from that res[of g] have "(g, r) \<in> set grs1 \<or> (g, r) \<in> set grs2" by auto
      then show ?thesis
      proof
        assume "(g, r) \<in> set grs1"
        from list_all2_right_set[OF g1 this] obtain raw where e: "emitted_first pf p raw (g, r)"
          by blast
        from emitted_first_route[OF e] emitted_first_fields(2)[OF e] show ?thesis by blast
      next
        assume "(g, r) \<in> set grs2"
        from list_all2_right_set[OF g2 this] obtain raw where e: "emitted_second pf p raw (g, r)"
          by blast
        from emitted_second_route[OF e] emitted_second_fields(2)[OF e] show ?thesis by blast
      qed
    qed
    have B: "\<exists>g. \<exists>r\<in>set (resources (groupById out g)).
              original r = location pf p raw \<and>
              switch_rawStatus (fs_status raw) (truthy (fs_rename raw)) = Inr (status r) \<and>
              mergeStatus r = lookup_mergeStatus (resolveStatuses p) raw"
      if "raw \<in> set (fileStatuses p)" for raw
    proof -
      from list_all2_left_set[OF g1 that] obtain gr where
        gr: "gr \<in> set grs1" "emitted_first pf p raw gr" by blast
      obtain g r where [simp]: "gr = (g, r)" by (cases gr)
      from gr(1) res[of g] have "r \<in> set (resources (groupById out g))" by force
      with emitted_first_route[of pf p raw g r] gr(2) show ?thesis by auto
    qed
    from A B show ?thesis by blast
  qed
  from chooseResourcesAndGroup_total[of p u c ms ren] R P show ?thesis by blast
qed

theorem groupStatuses_routing_witness:
  "groupStatuses ex_platform ex_refresh = Inr ex_refresh_groups \<and>
   \<not> isMerge (repoStatus ex_refresh) \<and>
   chooseResourcesAndGroup ex_refresh ''/repo/a.txt'' ''M'' NONE False = Inr (StagingID, MODIFIED) \<and>
   chooseResourcesAndGroup ex_refresh ''/repo/b.txt'' ''M'' NONE False = Inr (WorkingID, MODIFIED) \<and>
   chooseResourcesAndGroup ex_refresh ''/repo/a.txt'' ''?'' NONE False = Inr (UntrackedID, UNTRACKED) \<and>
   chooseResourcesAndGroup ex_merge ''/repo/a.txt'' ''M'' UNRESOLVED False = Inr (ConflictID, MODIFIED) \<and>
   chooseResourcesAndGroup ex_merge ''/repo/a.txt'' ''M'' RESOLVED False = Inr (MergeID, MODIFIED) \<and>
   (\<exists>out. groupStatuses ex_platform ex_refresh = Inr out) \<and>
   (\<exists>r\<in>set (resources (groupById ex_refresh_groups StagingID)).
      original r = ''/repo/a.txt'' \<and> status r = MODIFIED) \<and>
   (\<exists>r\<in>set (resources (groupById ex_refresh_groups WorkingID)).
      original r = ''/repo/b.txt'' \<and> status r = MODIFIED)"
proof -
  have wf: "\<forall>x\<in>set (resources (staging (statusGroups ex_refresh))). \<exists>v. resourceUri x = Inr v"
    by (simp add: ex_refresh_def ex_staged_a_def ex_staging_a_def resourceUri_def)
  have wfm: "\<forall>x\<in>set (resources (staging (statusGroups ex_merge))). \<exists>v. resourceUri x = Inr v"
    by (simp add: ex_merge_def ex_staged_a_def ex_staging_a_def resourceUri_def)
  have codes: "\<forall>raw\<in>set (fileStatuses ex_refresh).
       fs_status raw \<in> {''M'', ''R'', ''I'', ''?'', ''!'', ''A'', ''C''} \<and>
       (truthy (fs_rename raw) \<longrightarrow> fs_status raw = ''M'' \<or> fs_status raw = ''A'')"
    by (simp add: ex_refresh_def truthy_def)
  have a: "\<exists>x\<in>set (resources (staging (statusGroups ex_refresh))). resourceUri x = Inr ''/repo/a.txt''"
    by (simp add: ex_refresh_def ex_staged_a_def ex_staging_a_def resourceUri_def)
  have b: "\<not> (\<exists>x\<in>set (resources (staging (statusGroups ex_refresh))). resourceUri x = Inr ''/repo/b.txt'')"
    by (simp add: ex_refresh_def ex_staged_a_def ex_staging_a_def resourceUri_def)
  have nm: "\<not> isMerge (repoStatus ex_refresh)" "isMerge (repoStatus ex_merge)"
    by (simp_all add: ex_refresh_def ex_merge_def)
  have sw: "switch_rawStatus ''M'' False = Inr MODIFIED" "switch_rawStatus ''?'' False = Inr UNTRACKED"
    by (simp_all add: switch_rawStatus_def)
  have c1: "chooseResourcesAndGroup ex_refresh ''/repo/a.txt'' ''M'' NONE False = Inr (StagingID, MODIFIED)"
    using groupStatuses_routing[of ex_refresh "''/repo/a.txt''" "''M''" NONE False ex_platform] wf a nm sw
    by simp
  have c2: "chooseResourcesAndGroup ex_refresh ''/repo/b.txt'' ''M'' NONE False = Inr (WorkingID, MODIFIED)"
    using groupStatuses_routing[of ex_refresh "''/repo/b.txt''" "''M''" NONE False ex_platform] wf b nm sw
    by simp
  have c3: "chooseResourcesAndGroup ex_refresh ''/repo/a.txt'' ''?'' NONE False = Inr (UntrackedID, UNTRACKED)"
    using groupStatuses_routing[of ex_refresh "''/repo/a.txt''" "''?''" NONE False ex_platform] wf sw
    by simp
  have c4: "chooseResourcesAndGroup ex_merge ''/repo/a.txt'' ''M'' UNRESOLVED False = Inr (ConflictID, MODIFIED)"
    using groupStatuses_routing[of ex_merge "''/repo/a.txt''" "''M''" UNRESOLVED False ex_platform] wfm nm sw
    by simp
  have c5: "chooseResourcesAndGroup ex_merge ''/repo/a.txt'' ''M'' RESOLVED False = Inr (MergeID, MODIFIED)"
    using groupStatuses_routing[of ex_merge "''/repo/a.txt''" "''M''" RESOLVED False ex_platform] wfm nm sw
    by simp
  have ret: "\<exists>out. groupStatuses ex_platform ex_refresh = Inr out"
    using groupStatuses_routing[of ex_refresh "''/repo/a.txt''" "''M''" NONE False ex_platform] wf codes
    by blast
  have m1: "\<exists>r\<in>set (resources (groupById ex_refresh_groups StagingID)).
      original r = ''/repo/a.txt'' \<and> status r = MODIFIED"
    by (simp add: ex_refresh_groups_def)
  have m2: "\<exists>r\<in>set (resources (groupById ex_refresh_groups WorkingID)).
      original r = ''/repo/b.txt'' \<and> status r = MODIFIED"
    by (simp add: ex_refresh_groups_def)
  from ex_refresh_eval nm(1) c1 c2 c3 c4 c5 ret m1 m2 show ?thesis by blast
qed

lemma switch_rawStatus_known:
  "(\<exists>st. switch_rawStatus c ren = Inr st) = (c \<in> knownCodes)"
  by (auto simp add: switch_rawStatus_def knownCodes_def)

lemma switch_rawStatus_unknown:
  "c \<notin> knownCodes \<Longrightarrow> switch_rawStatus c ren = Inl (HgError (''Unknown rawStatus: '' @ c))"
  by (simp add: switch_rawStatus_def knownCodes_def)

lemma chooseResourcesAndGroup_unknown:
  "c \<notin> knownCodes \<Longrightarrow>
   chooseResourcesAndGroup p u c ms ren = Inl (HgError (''Unknown rawStatus: '' @ c))"
  by (simp add: chooseResourcesAndGroup_def switch_rawStatus_unknown)

lemma chooseResourcesAndGroup_known:
  assumes "c \<in> knownCodes"
    and "\<forall>r\<in>set (resources (staging (statusGroups p))). \<exists>v. resourceUri r = Inr v"
  shows "\<exists>g st. chooseResourcesAndGroup p u c ms ren = Inr (g, st)"
proof -
  from assms(1) obtain st where st: "switch_rawStatus c ren = Inr st"
    using switch_rawStatus_known by blast
  from some_resourceUri_total[OF assms(2)] obtain b where
    "some_resourceUri (resources (staging (statusGroups p))) u = Inr b" by blast
  with st show ?thesis by (simp add: chooseResourcesAndGroup_def)
qed

lemma fileStatuses_loop_unknown:
  assumes "\<forall>r\<in>set (resources (staging (statusGroups p))). \<exists>v. resourceUri r = Inr v"
    and "\<exists>raw\<in>set raws. fs_status raw \<notin> knownCodes"
  shows "\<exists>raw\<in>set raws. fs_status raw \<notin> knownCodes \<and>
           fileStatuses_loop pf p raws st = Inl (HgError (''Unknown rawStatus: '' @ fs_status raw))"
  using assms(2)
proof (induction raws arbitrary: st)
  case Nil
  then show ?case by simp
next
  case (Cons raw rest)
  obtain a seen where st: "st = (a, seen)" by (cases st)
  show ?case
  proof (cases "fs_status raw \<in> knownCodes")
    case False
    from chooseResourcesAndGroup_unknown[OF False] show ?thesis
      using False by (simp add: st Let_def)
  next
    case True
    with Cons.prems have bad: "\<exists>raw\<in>set rest. fs_status raw \<notin> knownCodes" by auto
    from chooseResourcesAndGroup_known[OF True assms(1)] obtain g s where
      "chooseResourcesAndGroup p (location pf p raw) (fs_status raw)
         (lookup_mergeStatus (resolveStatuses p) raw) (truthy (fs_rename raw)) = Inr (g, s)"
      by blast
    with Cons.IH[OF bad] show ?thesis by (simp add: st Let_def)
  qed
qed

text \<open>
  C3. The switch maps M, R, I, ?, !, A, C as listed (A to RENAMED exactly when the rename
  source is truthy) and raises \<open>HgError\<close> on every other code. A raw status list with an
  unknown code makes \<open>groupStatuses\<close> fail: no partition is returned, and with a previous
  staging group whose resources all have a location the error is the \<open>HgError\<close> of an
  unknown code of the list. When a partition is returned no record was dropped: each has a
  resource with its location and mapped status.
\<close>

theorem groupStatuses_classification:
  "switch_rawStatus ''M'' ren = Inr MODIFIED \<and>
   switch_rawStatus ''R'' ren = Inr DELETED \<and>
   switch_rawStatus ''I'' ren = Inr IGNORED \<and>
   switch_rawStatus ''?'' ren = Inr UNTRACKED \<and>
   switch_rawStatus ''!'' ren = Inr MISSING \<and>
   switch_rawStatus ''A'' ren = Inr (if ren then RENAMED else ADDED) \<and>
   switch_rawStatus ''C'' ren = Inr CLEAN \<and>
   (c \<notin> {''M'', ''R'', ''I'', ''?'', ''!'', ''A'', ''C''} \<longrightarrow>
      switch_rawStatus c ren = Inl (HgError (''Unknown rawStatus: '' @ c))) \<and>
   ((\<exists>raw\<in>set (fileStatuses p). fs_status raw \<notin> {''M'', ''R'', ''I'', ''?'', ''!'', ''A'', ''C''}) \<longrightarrow>
      (\<exists>e. groupStatuses pf p = Inl e) \<and>
      ((\<forall>r\<in>set (resources (staging (statusGroups p))). \<exists>v. resourceUri r = Inr v) \<longrightarrow>
         (\<exists>raw\<in>set (fileStatuses p). fs_status raw \<notin> {''M'', ''R'', ''I'', ''?'', ''!'', ''A'', ''C''} \<and>
            groupStatuses pf p = Inl (HgError (''Unknown rawStatus: '' @ fs_status raw))))) \<and>
   (\<forall>out. groupStatuses pf p = Inr out \<longrightarrow>
      (\<forall>raw\<in>set (fileStatuses p).
         \<exists>g. \<exists>r\<in>set (resources (groupById out g)).
           original r = location pf p raw \<and>
           switch_rawStatus (fs_status raw) (truthy (fs_rename raw)) = Inr (status r)))"
proof -
  have sw: "switch_rawStatus ''M'' ren = Inr MODIFIED \<and>
   switch_rawStatus ''R'' ren = Inr DELETED \<and>
   switch_rawStatus ''I'' ren = Inr IGNORED \<and>
   switch_rawStatus ''?'' ren = Inr UNTRACKED \<and>
   switch_rawStatus ''!'' ren = Inr MISSING \<and>
   switch_rawStatus ''A'' ren = Inr (if ren then RENAMED else ADDED) \<and>
   switch_rawStatus ''C'' ren = Inr CLEAN"
    by (simp add: switch_rawStatus_def)
  have unk: "c \<notin> {''M'', ''R'', ''I'', ''?'', ''!'', ''A'', ''C''} \<longrightarrow>
      switch_rawStatus c ren = Inl (HgError (''Unknown rawStatus: '' @ c))"
    using switch_rawStatus_unknown[of c ren] by (simp add: knownCodes_def)
  have covered: "\<exists>g. \<exists>r\<in>set (resources (groupById out g)).
           original r = location pf p raw \<and>
           switch_rawStatus (fs_status raw) (truthy (fs_rename raw)) = Inr (status r)"
    if ok: "groupStatuses pf p = Inr out" and raw: "raw \<in> set (fileStatuses p)" for out raw
  proof -
    from ok obtain grs1 grs2 where
      g1: "list_all2 (emitted_first pf p) (fileStatuses p) grs1" and
      res: "\<And>g. resources (groupById out g) = map snd (filter (\<lambda>gr. fst gr = g) (grs1 @ grs2))"
      using groupStatuses_resources[OF ok] by blast
    from list_all2_left_set[OF g1 raw] obtain gr where
      gr: "gr \<in> set grs1" "emitted_first pf p raw gr" by blast
    obtain g r where [simp]: "gr = (g, r)" by (cases gr)
    from gr(1) res[of g] have "r \<in> set (resources (groupById out g))" by force
    with emitted_first_route[of pf p raw g r] gr(2) show ?thesis by auto
  qed
  have fails: "\<exists>e. groupStatuses pf p = Inl e"
    if "\<exists>raw\<in>set (fileStatuses p). fs_status raw \<notin> knownCodes"
  proof (cases "groupStatuses pf p")
    case (Inl e)
    then show ?thesis by blast
  next
    case (Inr out)
    from that obtain raw where raw: "raw \<in> set (fileStatuses p)" "fs_status raw \<notin> knownCodes"
      by blast
    from covered[OF Inr raw(1)] have "\<exists>st. switch_rawStatus (fs_status raw) (truthy (fs_rename raw)) = Inr st"
      by blast
    with raw(2) switch_rawStatus_known show ?thesis by blast
  qed
  have hg: "\<exists>raw\<in>set (fileStatuses p). fs_status raw \<notin> knownCodes \<and>
            groupStatuses pf p = Inl (HgError (''Unknown rawStatus: '' @ fs_status raw))"
    if bad: "\<exists>raw\<in>set (fileStatuses p). fs_status raw \<notin> knownCodes"
      and wf: "\<forall>r\<in>set (resources (staging (statusGroups p))). \<exists>v. resourceUri r = Inr v"
  proof -
    from fileStatuses_loop_unknown[OF wf bad, of pf "(emptyArrays, Map.empty)"]
    obtain raw where "raw \<in> set (fileStatuses p)" "fs_status raw \<notin> knownCodes"
      "fileStatuses_loop pf p (fileStatuses p) (emptyArrays, Map.empty)
         = Inl (HgError (''Unknown rawStatus: '' @ fs_status raw))"
      by blast
    then show ?thesis by (auto simp add: groupStatuses_def)
  qed
  have last: "\<forall>out. groupStatuses pf p = Inr out \<longrightarrow>
      (\<forall>raw\<in>set (fileStatuses p).
         \<exists>g. \<exists>r\<in>set (resources (groupById out g)).
           original r = location pf p raw \<and>
           switch_rawStatus (fs_status raw) (truthy (fs_rename raw)) = Inr (status r))"
    using covered by blast
  from sw unk fails hg last show ?thesis unfolding knownCodes_def by blast
qed

theorem groupStatuses_classification_witness:
  "groupStatuses ex_platform ex_unknown = Inl (HgError ''Unknown rawStatus: X'') \<and>
   switch_rawStatus ''X'' True = Inl (HgError ''Unknown rawStatus: X'') \<and>
   switch_rawStatus ''A'' True = Inr RENAMED \<and>
   (\<exists>raw\<in>set (fileStatuses ex_unknown). fs_status raw = ''X'')"
  using groupStatuses_classification[of True "''X''" ex_unknown ex_platform] ex_unknown_eval
  by (simp add: ex_unknown_def)

lemma resourceUri_not_HgError: "resourceUri r \<noteq> Inl (HgError m)"
  by (simp add: resourceUri_def split: option.splits)

lemma some_resourceUri_not_HgError: "some_resourceUri rs u \<noteq> Inl (HgError m)"
  by (induction rs) (auto simp add: resourceUri_not_HgError split: sum.splits)

lemma indexResources_forEach_not_HgError: "indexResources_forEach index rs \<noteq> Inl (HgError m)"
  by (induction rs arbitrary: index) (auto simp add: resourceUri_not_HgError split: sum.splits)

lemma newResourceGroup_not_HgError: "newResourceGroup g rs \<noteq> Inl (HgError m)"
  using indexResources_forEach_not_HgError[of Map.empty rs m]
  by (auto simp add: newResourceGroup_def indexResources_def split: sum.splits)

lemma returnGroups_not_HgError: "returnGroups a \<noteq> Inl (HgError m)"
  by (auto simp add: returnGroups_def newResourceGroup_not_HgError split: sum.splits)

lemma chooseResourcesAndGroup_not_HgError:
  "c \<in> knownCodes \<Longrightarrow> chooseResourcesAndGroup p u c ms ren \<noteq> Inl (HgError m)"
  using switch_rawStatus_known[of c ren]
  by (auto simp add: chooseResourcesAndGroup_def some_resourceUri_not_HgError split: sum.splits)

lemma fileStatuses_loop_not_HgError:
  "\<forall>raw\<in>set raws. fs_status raw \<in> knownCodes \<Longrightarrow> fileStatuses_loop pf p raws st \<noteq> Inl (HgError m)"
proof (induction raws arbitrary: st)
  case Nil
  then show ?case by simp
next
  case (Cons raw rest)
  obtain a seen where st: "st = (a, seen)" by (cases st)
  from Cons.prems have k: "fs_status raw \<in> knownCodes" and r: "\<forall>raw\<in>set rest. fs_status raw \<in> knownCodes"
    by auto
  from chooseResourcesAndGroup_not_HgError[OF k] Cons.IH[OF r]
  show ?case by (auto simp add: st Let_def split: sum.splits)
qed

lemma resolveStatuses_loop_not_HgError:
  "resolveStatuses_loop pf p seen rs a \<noteq> Inl (HgError m)"
proof (induction rs arbitrary: a)
  case Nil
  then show ?case by simp
next
  case (Cons raw rest)
  have k: "(if existsSync pf (location pf p raw) then ''C'' else ''R'') \<in> knownCodes"
    by (simp add: knownCodes_def)
  from chooseResourcesAndGroup_not_HgError[OF k] Cons.IH
  show ?case by (auto simp add: Let_def split: sum.splits)
qed

text \<open>
  C10. \<open>toMergeStatus\<close> is a total function: RESOLVED for R, UNRESOLVED for U, NONE for
  every other string. Whatever codes the resolution records carry, \<open>groupStatuses\<close> raises
  no \<open>HgError\<close> when the codes of the raw status list are known ones.
\<close>

theorem toMergeStatus_total:
  "toMergeStatus ''R'' = RESOLVED \<and> toMergeStatus ''U'' = UNRESOLVED \<and>
   (s \<noteq> ''R'' \<and> s \<noteq> ''U'' \<longrightarrow> toMergeStatus s = NONE) \<and>
   ((\<forall>raw\<in>set (fileStatuses p). fs_status raw \<in> {''M'', ''R'', ''I'', ''?'', ''!'', ''A'', ''C''}) \<longrightarrow>
      (\<forall>m. groupStatuses pf p \<noteq> Inl (HgError m)))"
proof -
  have a: "toMergeStatus ''R'' = RESOLVED \<and> toMergeStatus ''U'' = UNRESOLVED \<and>
   (s \<noteq> ''R'' \<and> s \<noteq> ''U'' \<longrightarrow> toMergeStatus s = NONE)"
    by (simp add: toMergeStatus_def)
  have b: "groupStatuses pf p \<noteq> Inl (HgError m)"
    if "\<forall>raw\<in>set (fileStatuses p). fs_status raw \<in> knownCodes" for m
    using fileStatuses_loop_not_HgError[OF that, of pf p "(emptyArrays, Map.empty)" m]
      resolveStatuses_loop_not_HgError[of pf p _ _ _ m] returnGroups_not_HgError[of _ m]
    by (auto simp add: groupStatuses_def split: sum.splits option.splits)
  from a b show ?thesis unfolding knownCodes_def by blast
qed

theorem toMergeStatus_total_witness:
  "toMergeStatus ''X'' = NONE \<and>
   (\<exists>res\<in>set (the (resolveStatuses ex_merge)). fs_status res = ''X'') \<and>
   groupStatuses ex_platform ex_merge \<noteq> Inl (HgError ''Unknown rawStatus: X'')"
  using toMergeStatus_total[of "''X''" ex_merge ex_platform]
  by (simp add: ex_merge_def)

lemma emitted_first_originals:
  "list_all2 (emitted_first pf p) raws grs \<Longrightarrow> map (\<lambda>gr. original (snd gr)) grs = map (location pf p) raws"
proof (induction rule: list_all2_induct)
  case Nil
  then show ?case by simp
next
  case (Cons raw raws gr grs)
  obtain g r where [simp]: "gr = (g, r)" by (cases gr)
  from Cons emitted_first_fields(3)[of pf p raw g r] show ?case by simp
qed

lemma emitted_second_originals:
  "list_all2 (emitted_second pf p) raws grs \<Longrightarrow> map (\<lambda>gr. original (snd gr)) grs = map (location pf p) raws"
proof (induction rule: list_all2_induct)
  case Nil
  then show ?case by simp
next
  case (Cons raw raws gr grs)
  obtain g r where [simp]: "gr = (g, r)" by (cases gr)
  from Cons emitted_second_fields(3)[of pf p raw g r] show ?case by simp
qed

lemma set_allResources:
  "(r \<in> set (allResources gs)) = (\<exists>g. r \<in> set (resources (groupById gs g)))"
proof
  assume "r \<in> set (allResources gs)"
  then show "\<exists>g. r \<in> set (resources (groupById gs g))"
    by (auto simp add: allResources_def simp del: groupById.simps)
next
  assume "\<exists>g. r \<in> set (resources (groupById gs g))"
  then obtain g where "r \<in> set (resources (groupById gs g))" by blast
  then show "r \<in> set (allResources gs)"
    by (cases g) (simp_all add: allResources_def)
qed

lemma count_by_group:
  "length (filter Q (concat (map (\<lambda>g. map snd (filter (\<lambda>gr. fst gr = g) grs))
       [ConflictID, MergeID, StagingID, WorkingID, UntrackedID])))
   = length (filter (\<lambda>gr. Q (snd gr)) grs)"
proof (induction grs)
  case Nil
  then show ?case by simp
next
  case (Cons gr grs)
  obtain g r where [simp]: "gr = (g, r)" by (cases gr)
  from Cons show ?case by (cases g) simp_all
qed

lemma length_filter_map_eq:
  "map f xs = map h ys \<Longrightarrow> length (filter (\<lambda>x. f x = u) xs) = length (filter (\<lambda>y. h y = u) ys)"
proof -
  assume eq: "map f xs = map h ys"
  have "length (filter (\<lambda>x. f x = u) xs) = length (filter (\<lambda>v. v = u) (map f xs))"
    by (simp add: filter_map comp_def)
  also have "\<dots> = length (filter (\<lambda>v. v = u) (map h ys))" by (simp add: eq)
  also have "\<dots> = length (filter (\<lambda>y. h y = u) ys)" by (simp add: filter_map comp_def)
  finally show ?thesis .
qed

text \<open>
  C2, as the code has it. When the raw status list names each location once and the
  resolution list names each location once, every location is the own location of exactly
  one resource over the five returned groups, and the locations of the five groups together
  are those of the two lists. For membership by the index (the effective location) the same
  holds when no record carries a rename source.
\<close>

theorem groupStatuses_partition:
  assumes ok: "groupStatuses pf p = Inr out"
    and d1: "distinct (map (location pf p) (fileStatuses p))"
    and d2: "case resolveStatuses p of None \<Rightarrow> True | Some rs \<Rightarrow> distinct (map (location pf p) rs)"
  shows "(\<forall>g. distinct (map original (resources (groupById out g)))) \<and>
         (\<forall>g g' r r'. r \<in> set (resources (groupById out g)) \<and>
                      r' \<in> set (resources (groupById out g')) \<and> original r = original r'
                      \<longrightarrow> g = g' \<and> r = r') \<and>
         original ` set (allResources out)
           = location pf p ` (set (fileStatuses p) \<union>
               (case resolveStatuses p of None \<Rightarrow> {} | Some rs \<Rightarrow> set rs)) \<and>
         ((\<forall>raw\<in>set (fileStatuses p). \<not> truthy (fs_rename raw)) \<longrightarrow>
            (\<forall>u g g'. includesUri (groupById out g) u \<and> includesUri (groupById out g') u \<longrightarrow> g = g'))"
proof -
  let ?second = "case resolveStatuses p of
          None \<Rightarrow> []
        | Some rs \<Rightarrow> filter (\<lambda>raw. location pf p raw \<notin> location pf p ` set (fileStatuses p)) rs"
  from groupStatuses_resources[OF ok] obtain grs1 grs2 where
    g1: "list_all2 (emitted_first pf p) (fileStatuses p) grs1" and
    g2: "list_all2 (emitted_second pf p) ?second grs2" and
    res: "\<And>g. resources (groupById out g) = map snd (filter (\<lambda>gr. fst gr = g) (grs1 @ grs2))" and
    inc: "\<And>g u. includesUri (groupById out g) u
            = (\<exists>r\<in>set (resources (groupById out g)). resourceUri r = Inr u)"
    by blast
  let ?all = "grs1 @ grs2"
  let ?f = "\<lambda>gr::ResourceGroupId \<times> Resource. original (snd gr)"
  have origs: "map ?f ?all = map (location pf p) (fileStatuses p) @ map (location pf p) ?second"
    using emitted_first_originals[OF g1] emitted_second_originals[OF g2] by simp
  have dsecond: "distinct (map (location pf p) ?second)"
    using d2 by (auto split: option.splits simp add: distinct_map_filter)
  have disj: "set (map (location pf p) (fileStatuses p)) \<inter> set (map (location pf p) ?second) = {}"
  proof (cases "resolveStatuses p")
    case None
    then show ?thesis by simp
  next
    case (Some rs)
    have "u \<notin> set (map (location pf p)
             (filter (\<lambda>raw. location pf p raw \<notin> location pf p ` set (fileStatuses p)) rs))"
      if "u \<in> set (map (location pf p) (fileStatuses p))" for u
    proof
      assume "u \<in> set (map (location pf p)
             (filter (\<lambda>raw. location pf p raw \<notin> location pf p ` set (fileStatuses p)) rs))"
      then obtain raw where "u = location pf p raw"
        "location pf p raw \<notin> location pf p ` set (fileStatuses p)" by auto
      with that show False by simp
    qed
    then show ?thesis unfolding Some option.case by blast
  qed
  have dall: "distinct (map ?f ?all)"
    unfolding origs using d1 dsecond disj by (simp only: distinct_append)
  then have inj: "inj_on ?f (set ?all)" by (simp only: distinct_map)
  have memb: "(g, r) \<in> set ?all" if "r \<in> set (resources (groupById out g))" for g r
    using that res[of g] by auto
  have A: "distinct (map original (resources (groupById out g)))" for g
  proof -
    have "map original (resources (groupById out g)) = map ?f (filter (\<lambda>gr. fst gr = g) ?all)"
      by (simp add: res comp_def)
    with distinct_map_filter[OF dall] show ?thesis by simp
  qed
  have B: "g = g' \<and> r = r'"
    if "r \<in> set (resources (groupById out g))" "r' \<in> set (resources (groupById out g'))"
      "original r = original r'" for g g' r r'
  proof -
    from that(1,2) have m: "(g, r) \<in> set ?all" "(g', r') \<in> set ?all" by (simp_all only: memb)
    from that(3) have "?f (g, r) = ?f (g', r')" by simp
    from inj_onD[OF inj this m] show ?thesis by simp
  qed
  have setall: "set (allResources out) = snd ` set ?all"
  proof (intro set_eqI iffI)
    fix r assume "r \<in> set (allResources out)"
    then obtain g where "r \<in> set (resources (groupById out g))" by (auto simp add: set_allResources)
    from memb[OF this] show "r \<in> snd ` set ?all" by force
  next
    fix r assume "r \<in> snd ` set ?all"
    then obtain gr where "gr \<in> set ?all" "r = snd gr" by blast
    then have "(fst gr, r) \<in> set ?all" by simp
    then obtain g where "(g, r) \<in> set ?all" by blast
    then have "r \<in> set (resources (groupById out g))" unfolding res by force
    then show "r \<in> set (allResources out)" by (auto simp add: set_allResources)
  qed
  have "original ` set (allResources out) = set (map ?f ?all)"
    unfolding setall by (simp only: set_map image_image)
  also have "\<dots> = location pf p ` set (fileStatuses p) \<union> location pf p ` set ?second"
    unfolding origs by simp
  also have "\<dots> = location pf p ` (set (fileStatuses p) \<union>
               (case resolveStatuses p of None \<Rightarrow> {} | Some rs \<Rightarrow> set rs))"
    by (auto split: option.splits)
  finally have C: "original ` set (allResources out)
           = location pf p ` (set (fileStatuses p) \<union>
               (case resolveStatuses p of None \<Rightarrow> {} | Some rs \<Rightarrow> set rs))" .
  have D: "g = g'"
    if nr: "\<forall>raw\<in>set (fileStatuses p). \<not> truthy (fs_rename raw)"
      and i1: "includesUri (groupById out g) u" and i2: "includesUri (groupById out g') u"
    for u g g'
  proof -
    have norename: "renameResourceUri r = None" if "(h, r) \<in> set ?all" for h r
    proof -
      from that have "(h, r) \<in> set grs1 \<or> (h, r) \<in> set grs2" by simp
      then show ?thesis
      proof
        assume "(h, r) \<in> set grs1"
        from list_all2_right_set[OF g1 this] obtain raw where
          raw: "raw \<in> set (fileStatuses p)" "emitted_first pf p raw (h, r)" by blast
        from nr raw(1) have "\<not> truthy (fs_rename raw)" by blast
        with emitted_first_fields(5)[OF raw(2)] show ?thesis
          by (simp add: truthy_def split: option.splits)
      next
        assume "(h, r) \<in> set grs2"
        from list_all2_right_set[OF g2 this] obtain raw where "emitted_second pf p raw (h, r)" by blast
        from emitted_second_fields(5)[OF this] show ?thesis .
      qed
    qed
    from i1 inc obtain r where r: "r \<in> set (resources (groupById out g))" "resourceUri r = Inr u"
      by blast
    from i2 inc obtain r' where r': "r' \<in> set (resources (groupById out g'))" "resourceUri r' = Inr u"
      by blast
    from norename[OF memb[OF r(1)]] r(2) have "original r = u" by (simp add: resourceUri_def)
    moreover from norename[OF memb[OF r'(1)]] r'(2) have "original r' = u" by (simp add: resourceUri_def)
    ultimately show ?thesis using B[OF r(1) r'(1)] by simp
  qed
  from A B C D show ?thesis by blast
qed

theorem groupStatuses_partition_witness:
  "groupStatuses ex_platform ex_merge = Inr ex_merge_groups \<and>
   distinct (map (location ex_platform ex_merge) (fileStatuses ex_merge)) \<and>
   distinct (map (location ex_platform ex_merge) (the (resolveStatuses ex_merge))) \<and>
   distinct (map original (resources (groupById ex_merge_groups MergeID))) \<and>
   original ` set (allResources ex_merge_groups)
     = {''/repo/a.txt'', ''/repo/n.txt'', ''/repo/c.txt'', ''/repo/d.txt''}"
proof -
  have d1: "distinct (map (location ex_platform ex_merge) (fileStatuses ex_merge))"
    by (simp add: ex_merge_def location_def ex_platform_def)
  have d2: "case resolveStatuses ex_merge of None \<Rightarrow> True
            | Some rs \<Rightarrow> distinct (map (location ex_platform ex_merge) rs)"
    by (simp add: ex_merge_def location_def ex_platform_def)
  have d3: "distinct (map (location ex_platform ex_merge) (the (resolveStatuses ex_merge)))"
    by (simp add: ex_merge_def location_def ex_platform_def)
  have img: "location ex_platform ex_merge ` (set (fileStatuses ex_merge) \<union>
               (case resolveStatuses ex_merge of None \<Rightarrow> {} | Some rs \<Rightarrow> set rs))
             = {''/repo/a.txt'', ''/repo/n.txt'', ''/repo/c.txt'', ''/repo/d.txt''}"
    by (auto simp add: ex_merge_def location_def ex_platform_def)
  from groupStatuses_partition[OF ex_merge_eval d1 d2]
  have a: "\<forall>g. distinct (map original (resources (groupById ex_merge_groups g)))"
    and c: "original ` set (allResources ex_merge_groups)
            = location ex_platform ex_merge ` (set (fileStatuses ex_merge) \<union>
               (case resolveStatuses ex_merge of None \<Rightarrow> {} | Some rs \<Rightarrow> set rs))"
    by blast+
  from a[rule_format, of MergeID] c ex_merge_eval d1 d3 img
  show ?thesis by simp
qed

text \<open>
  C2 as stated fails. A raw status list that names \<open>a.txt\<close> twice puts it in the
  untracked and in the working group. With the status of a rename from \<open>a.txt\<close> to
  \<open>b.txt\<close> and \<open>a.txt\<close> staged before, the staging group holds the removed \<open>a.txt\<close>
  and the working group the renamed resource, whose effective location is \<open>a.txt\<close>: both
  groups include that location.
\<close>

theorem groupStatuses_partition_counterexample:
  "groupStatuses ex_platform ex_duplicate = Inr ex_duplicate_groups \<and>
   includesUri (untracked ex_duplicate_groups) ''/repo/a.txt'' \<and>
   includesUri (working ex_duplicate_groups) ''/repo/a.txt'' \<and>
   (\<exists>r\<in>set (resources (untracked ex_duplicate_groups)). original r = ''/repo/a.txt'') \<and>
   (\<exists>r\<in>set (resources (working ex_duplicate_groups)). original r = ''/repo/a.txt'') \<and>
   groupStatuses ex_platform ex_rename = Inr ex_rename_groups \<and>
   includesUri (staging ex_rename_groups) ''/repo/a.txt'' \<and>
   includesUri (working ex_rename_groups) ''/repo/a.txt''"
  using ex_duplicate_eval ex_rename_eval
  by (simp add: ex_duplicate_groups_def ex_rename_groups_def includesUri_def)

lemma allResources_pairs:
  assumes "\<And>g. resources (groupById out g) = map snd (filter (\<lambda>gr. fst gr = g) grs)"
  shows "length (filter Q (allResources out)) = length (filter (\<lambda>gr. Q (snd gr)) grs)"
proof -
  have "allResources out = concat (map (\<lambda>g. map snd (filter (\<lambda>gr. fst gr = g) grs))
       [ConflictID, MergeID, StagingID, WorkingID, UntrackedID])"
    unfolding allResources_def by (simp only: assms)
  then show ?thesis by (simp only: count_by_group)
qed

text \<open>
  C4. For a resolution record whose location no raw status record has, the partition holds
  a resource with that location, no rename source, the merge status of the record's code
  and the status of the inferred code (CLEAN when the file exists, DELETED when not), in
  the group \<open>chooseResourcesAndGroup\<close> gives for the inferred code. The resources at a
  location number as the raw status records there when there is one (the second pass adds
  none: they carry the raw record's mapped status and looked-up merge status), and as the
  resolution records there otherwise.
\<close>

theorem groupStatuses_second_pass:
  assumes ok: "groupStatuses pf p = Inr out"
    and rs: "resolveStatuses p = Some rs"
  shows "(\<forall>res\<in>set rs. location pf p res \<notin> location pf p ` set (fileStatuses p) \<longrightarrow>
            (\<exists>g st. chooseResourcesAndGroup p (location pf p res)
                       (if existsSync pf (location pf p res) then ''C'' else ''R'')
                       (toMergeStatus (fs_status res)) (truthy (fs_rename res)) = Inr (g, st) \<and>
                     st = (if existsSync pf (location pf p res) then CLEAN else DELETED) \<and>
                     Resource (groupById (statusGroups p) g) (location pf p res) st
                       (toMergeStatus (fs_status res)) None
                       \<in> set (resources (groupById out g)))) \<and>
         (\<forall>u. length (filter (\<lambda>r. original r = u) (allResources out))
              = (if u \<in> location pf p ` set (fileStatuses p)
                 then length (filter (\<lambda>raw. location pf p raw = u) (fileStatuses p))
                 else length (filter (\<lambda>res. location pf p res = u) rs))) \<and>
         (\<forall>r\<in>set (allResources out). original r \<in> location pf p ` set (fileStatuses p) \<longrightarrow>
            (\<exists>raw\<in>set (fileStatuses p). location pf p raw = original r \<and>
               switch_rawStatus (fs_status raw) (truthy (fs_rename raw)) = Inr (status r) \<and>
               mergeStatus r = lookup_mergeStatus (resolveStatuses p) raw))"
proof -
  let ?first = "location pf p ` set (fileStatuses p)"
  let ?second = "filter (\<lambda>raw. location pf p raw \<notin> ?first) rs"
  from groupStatuses_resources[OF ok] rs obtain grs1 grs2 where
    g1: "list_all2 (emitted_first pf p) (fileStatuses p) grs1" and
    g2: "list_all2 (emitted_second pf p) ?second grs2" and
    res: "\<And>g. resources (groupById out g) = map snd (filter (\<lambda>gr. fst gr = g) (grs1 @ grs2))"
    by auto
  have o1: "map (\<lambda>gr. original (snd gr)) grs1 = map (location pf p) (fileStatuses p)"
    by (rule emitted_first_originals[OF g1])
  have o2: "map (\<lambda>gr. original (snd gr)) grs2 = map (location pf p) ?second"
    by (rule emitted_second_originals[OF g2])
  have A: "\<exists>g st. chooseResourcesAndGroup p (location pf p res)
                       (if existsSync pf (location pf p res) then ''C'' else ''R'')
                       (toMergeStatus (fs_status res)) (truthy (fs_rename res)) = Inr (g, st) \<and>
                     st = (if existsSync pf (location pf p res) then CLEAN else DELETED) \<and>
                     Resource (groupById (statusGroups p) g) (location pf p res) st
                       (toMergeStatus (fs_status res)) None
                       \<in> set (resources (groupById out g))"
    if "res \<in> set rs" "location pf p res \<notin> ?first" for res
  proof -
    from that have "res \<in> set ?second" by simp
    from list_all2_left_set[OF g2 this] obtain gr where
      gr: "gr \<in> set grs2" "emitted_second pf p res gr" by blast
    obtain g r where [simp]: "gr = (g, r)" by (cases gr)
    from gr(2) have ch: "chooseResourcesAndGroup p (location pf p res)
                       (if existsSync pf (location pf p res) then ''C'' else ''R'')
                       (toMergeStatus (fs_status res)) (truthy (fs_rename res)) = Inr (g, status r)"
      and r: "r = Resource (groupById (statusGroups p) g) (location pf p res) (status r)
                    (toMergeStatus (fs_status res)) None"
      by (simp_all add: emitted_second_def)
    from emitted_second_route[of pf p res g r] gr(2)
    have st: "status r = (if existsSync pf (location pf p res) then CLEAN else DELETED)"
      by (auto simp add: switch_rawStatus_def split: if_splits)
    from gr(1) res[of g] have "r \<in> set (resources (groupById out g))" by force
    with r have "Resource (groupById (statusGroups p) g) (location pf p res) (status r)
                   (toMergeStatus (fs_status res)) None
                       \<in> set (resources (groupById out g))" by simp
    with ch st show ?thesis by blast
  qed
  have B: "length (filter (\<lambda>r. original r = u) (allResources out))
              = (if u \<in> ?first
                 then length (filter (\<lambda>raw. location pf p raw = u) (fileStatuses p))
                 else length (filter (\<lambda>res. location pf p res = u) rs))" for u
  proof -
    have "length (filter (\<lambda>r. original r = u) (allResources out))
          = length (filter (\<lambda>gr. original (snd gr) = u) (grs1 @ grs2))"
      by (rule allResources_pairs[OF res])
    also have "\<dots> = length (filter (\<lambda>raw. location pf p raw = u) (fileStatuses p))
                    + length (filter (\<lambda>raw. location pf p raw = u) ?second)"
      using length_filter_map_eq[OF o1, of u] length_filter_map_eq[OF o2, of u] by simp
    finally have total: "length (filter (\<lambda>r. original r = u) (allResources out))
          = length (filter (\<lambda>raw. location pf p raw = u) (fileStatuses p))
            + length (filter (\<lambda>raw. location pf p raw = u) ?second)" .
    show ?thesis
    proof (cases "u \<in> ?first")
      case True
      then have "filter (\<lambda>raw. location pf p raw = u) ?second = []"
        by (auto simp add: filter_empty_conv)
      with total True show ?thesis by simp
    next
      case False
      then have "filter (\<lambda>raw. location pf p raw = u) (fileStatuses p) = []"
        by (auto simp add: filter_empty_conv)
      moreover from False have "filter (\<lambda>raw. location pf p raw = u) ?second
            = filter (\<lambda>raw. location pf p raw = u) rs"
        by (auto intro: filter_cong)
      ultimately show ?thesis using total False by simp
    qed
  qed
  have C: "\<exists>raw\<in>set (fileStatuses p). location pf p raw = original r \<and>
               switch_rawStatus (fs_status raw) (truthy (fs_rename raw)) = Inr (status r) \<and>
               mergeStatus r = lookup_mergeStatus (resolveStatuses p) raw"
    if "r \<in> set (allResources out)" "original r \<in> ?first" for r
  proof -
    from that(1) obtain g where "r \<in> set (resources (groupById out g))"
      by (auto simp add: set_allResources)
    with res[of g] have "(g, r) \<in> set grs1 \<or> (g, r) \<in> set grs2" by auto
    then show ?thesis
    proof
      assume "(g, r) \<in> set grs1"
      from list_all2_right_set[OF g1 this] obtain raw where
        "raw \<in> set (fileStatuses p)" "emitted_first pf p raw (g, r)" by blast
      with emitted_first_route[of pf p raw g r] show ?thesis by auto
    next
      assume "(g, r) \<in> set grs2"
      from list_all2_right_set[OF g2 this] obtain raw where
        "raw \<in> set ?second" "emitted_second pf p raw (g, r)" by blast
      with emitted_second_fields(3)[of pf p raw g r] have "original r \<notin> ?first" by simp
      with that(2) show ?thesis by contradiction
    qed
  qed
  from A B C show ?thesis by blast
qed

theorem groupStatuses_second_pass_witness:
  "groupStatuses ex_platform ex_merge = Inr ex_merge_groups \<and>
   Resource (emptyGroup ConflictID) ''/repo/c.txt'' DELETED UNRESOLVED None
     \<in> set (resources (groupById ex_merge_groups ConflictID)) \<and>
   length (filter (\<lambda>r. original r = ''/repo/a.txt'') (allResources ex_merge_groups)) = 1 \<and>
   length (filter (\<lambda>r. original r = ''/repo/c.txt'') (allResources ex_merge_groups)) = 1"
proof -
  have rs: "resolveStatuses ex_merge
            = Some [\<lparr>fs_path = ''a.txt'', fs_status = ''R'', fs_rename = None\<rparr>,
                    \<lparr>fs_path = ''c.txt'', fs_status = ''U'', fs_rename = None\<rparr>,
                    \<lparr>fs_path = ''d.txt'', fs_status = ''X'', fs_rename = None\<rparr>]"
    by (simp add: ex_merge_def)
  from groupStatuses_second_pass[OF ex_merge_eval rs]
  have cnt: "\<forall>u. length (filter (\<lambda>r. original r = u) (allResources ex_merge_groups))
              = (if u \<in> location ex_platform ex_merge ` set (fileStatuses ex_merge)
                 then length (filter (\<lambda>raw. location ex_platform ex_merge raw = u)
                                (fileStatuses ex_merge))
                 else length (filter (\<lambda>res. location ex_platform ex_merge res = u)
                                [\<lparr>fs_path = ''a.txt'', fs_status = ''R'', fs_rename = None\<rparr>,
                                 \<lparr>fs_path = ''c.txt'', fs_status = ''U'', fs_rename = None\<rparr>,
                                 \<lparr>fs_path = ''d.txt'', fs_status = ''X'', fs_rename = None\<rparr>]))"
    by blast
  from cnt[rule_format, of "''/repo/a.txt''"]
  have a: "length (filter (\<lambda>r. original r = ''/repo/a.txt'') (allResources ex_merge_groups)) = 1"
    by (simp add: ex_merge_def location_def ex_platform_def)
  from cnt[rule_format, of "''/repo/c.txt''"]
  have c: "length (filter (\<lambda>r. original r = ''/repo/c.txt'') (allResources ex_merge_groups)) = 1"
    by (simp add: ex_merge_def location_def ex_platform_def)
  have m: "Resource (emptyGroup ConflictID) ''/repo/c.txt'' DELETED UNRESOLVED None
             \<in> set (resources (groupById ex_merge_groups ConflictID))"
    by (simp add: ex_merge_groups_def)
  from ex_merge_eval m a c show ?thesis by blast
qed

lemma filter_throwing_char:
  "filter_throwing p xs = Inr ys \<Longrightarrow>
   (\<forall>x\<in>set xs. \<exists>b. p x = Inr b) \<and> ys = filter (\<lambda>x. p x = Inr True) xs"
proof (induction xs arbitrary: ys)
  case Nil
  then show ?case by simp
next
  case (Cons x xs)
  from Cons.prems obtain b zs where b: "p x = Inr b" and zs: "filter_throwing p xs = Inr zs"
    and ys: "ys = (if b then x # zs else zs)"
    by (auto split: sum.splits)
  from Cons.IH[OF zs] b ys show ?case by auto
qed

lemma filter_throwing_total:
  "\<forall>x\<in>set xs. \<exists>b. p x = Inr b \<Longrightarrow> filter_throwing p xs = Inr (filter (\<lambda>x. p x = Inr True) xs)"
  by (induction xs) auto

lemma map_throwing_char:
  "map_throwing f xs = Inr ys \<Longrightarrow> list_all2 (\<lambda>x y. f x = Inr y) xs ys"
proof (induction xs arbitrary: ys)
  case Nil
  then show ?case by simp
next
  case (Cons x xs)
  from Cons.prems obtain y zs where "f x = Inr y" "map_throwing f xs = Inr zs" "ys = y # zs"
    by (auto split: sum.splits)
  with Cons.IH[of zs] show ?case by simp
qed

lemma map_throwing_total:
  "\<forall>x\<in>set xs. \<exists>y. f x = Inr y \<Longrightarrow> \<exists>ys. map_throwing f xs = Inr ys"
  by (induction xs) auto

lemma newResourceGroup_total:
  "\<forall>r\<in>set rs. \<exists>u. resourceUri r = Inr u \<Longrightarrow> \<exists>g. newResourceGroup gid rs = Inr g"
  using indexResources_forEach_total[of rs Map.empty]
  by (auto simp add: newResourceGroup_def indexResources_def)

lemma indexResources_char:
  "indexResources rs = Inr index \<Longrightarrow>
   (\<forall>r\<in>set rs. \<exists>u. resourceUri r = Inr u) \<and>
   (\<forall>u. (index u \<noteq> None) = (\<exists>r\<in>set rs. resourceUri r = Inr u))"
  using indexResources_forEach_char[of Map.empty rs index] by (simp add: indexResources_def)

lemma except_char:
  assumes "except g rs = Inr g'"
  shows "group_id g' = group_id g \<and>
         (\<forall>r\<in>set rs. includes_resource g' r = Inr False) \<and>
         resources g' = filter (\<lambda>x. \<forall>r\<in>set rs. resourceUri r \<noteq> resourceUri x) (resources g)"
proof -
  let ?keep = "\<lambda>index r. case resourceUri r of Inl e \<Rightarrow> Inl e
                 | Inr u \<Rightarrow> Inr (\<not> (index u \<noteq> (None :: bool option)))"
  from assms obtain index remaining where
    idx: "indexResources rs = Inr index" and
    fl: "filter_throwing (?keep index) (resources g) = Inr remaining" and
    new: "newResourceGroup (group_id g) remaining = Inr g'"
    by (auto simp add: except_def split: sum.splits)
  from indexResources_char[OF idx] have
    valid: "\<forall>r\<in>set rs. \<exists>u. resourceUri r = Inr u" and
    index: "\<And>u. (index u \<noteq> None) = (\<exists>r\<in>set rs. resourceUri r = Inr u)"
    by blast+
  from filter_throwing_char[OF fl] have
    gvalid: "\<forall>x\<in>set (resources g). \<exists>b. ?keep index x = Inr b" and
    rem: "remaining = filter (\<lambda>x. ?keep index x = Inr True) (resources g)"
    by blast+
  from newResourceGroup_char[OF new] have
    gid: "group_id g' = group_id g" and rs': "resources g' = remaining" and
    inc: "\<And>u. includesUri g' u = (\<exists>r\<in>set remaining. resourceUri r = Inr u)"
    by blast+
  have keep_iff: "(?keep index x = Inr True) = (\<forall>r\<in>set rs. resourceUri r \<noteq> resourceUri x)"
    if "x \<in> set (resources g)" for x
  proof -
    from gvalid that obtain b where "?keep index x = Inr b" by blast
    then obtain u where u: "resourceUri x = Inr u" by (auto split: sum.splits)
    then have "(?keep index x = Inr True) = (index u = None)" by simp
    also have "\<dots> = (\<not> (\<exists>r\<in>set rs. resourceUri r = Inr u))" using index[of u] by blast
    finally show ?thesis using u by auto
  qed
  have A: "resources g' = filter (\<lambda>x. \<forall>r\<in>set rs. resourceUri r \<noteq> resourceUri x) (resources g)"
    unfolding rs' rem using keep_iff by (auto intro: filter_cong)
  have B: "includes_resource g' r = Inr False" if "r \<in> set rs" for r
  proof -
    from valid that obtain u where u: "resourceUri r = Inr u" by blast
    have "\<not> includesUri g' u"
    proof
      assume "includesUri g' u"
      with inc obtain x where "x \<in> set remaining" "resourceUri x = Inr u" by blast
      with rs' A have "\<forall>r\<in>set rs. resourceUri r \<noteq> Inr u" by auto
      with that u show False by blast
    qed
    with u show ?thesis by (simp add: includes_resource_def)
  qed
  from gid A B show ?thesis by blast
qed

lemma intersect_char:
  assumes "intersect g rs = Inr g'"
  shows "group_id g' = group_id g \<and>
         (\<exists>new. resources g' = resources g @ new \<and>
            list_all2 (\<lambda>r r'. \<exists>u. resourceUri r = Inr u \<and>
                r' = Resource g u (status r) (mergeStatus r) None)
              (filter (\<lambda>r. includes_resource g r = Inr False) rs) new \<and>
            (\<forall>r'\<in>set new. resourceGroup r' = g \<and> resourceGroup r' \<noteq> g')) \<and>
         (\<forall>x\<in>set (resources g). includes_resource g' x = Inr True) \<and>
         (\<forall>r\<in>set rs. includes_resource g r = Inr False \<longrightarrow> includes_resource g' r = Inr True)"
proof -
  let ?absent = "\<lambda>r. case includes_resource g r of Inl e \<Rightarrow> Inl e | Inr b \<Rightarrow> Inr (\<not> b)"
  from assms obtain kept new where
    fl: "filter_throwing ?absent rs = Inr kept" and
    mp: "map_throwing (rehome g) kept = Inr new" and
    ng: "newResourceGroup (group_id g) (resources g @ new) = Inr g'"
    by (auto simp add: intersect_def split: sum.splits)
  from filter_throwing_char[OF fl] have kept: "kept = filter (\<lambda>r. ?absent r = Inr True) rs"
    by blast
  have "(?absent r = Inr True) = (includes_resource g r = Inr False)" for r
    by (cases "includes_resource g r") auto
  then have "(\<lambda>r. ?absent r = Inr True) = (\<lambda>r. includes_resource g r = Inr False)"
    by (rule ext)
  with kept have kept': "kept = filter (\<lambda>r. includes_resource g r = Inr False) rs" by simp
  from newResourceGroup_char[OF ng] have
    gid: "group_id g' = group_id g" and rs': "resources g' = resources g @ new" and
    valid: "\<forall>r\<in>set (resources g @ new). \<exists>u. resourceUri r = Inr u" and
    inc: "\<And>u. includesUri g' u = (\<exists>r\<in>set (resources g @ new). resourceUri r = Inr u)"
    by blast+
  have rel: "list_all2 (\<lambda>r r'. \<exists>u. resourceUri r = Inr u \<and>
                r' = Resource g u (status r) (mergeStatus r) None) kept new"
    using map_throwing_char[OF mp]
    by (rule list_all2_mono) (auto simp add: rehome_def split: sum.splits)
  have own: "resourceGroup r' = g \<and> resourceGroup r' \<noteq> g'" if "r' \<in> set new" for r'
  proof -
    from list_all2_right_set[OF rel that] have o: "resourceGroup r' = g" by auto
    from that have "new \<noteq> []" by auto
    with rs' have "resources g' \<noteq> resources g" by simp
    then have "g' \<noteq> g" by auto
    with o show ?thesis by simp
  qed
  have A: "includes_resource g' x = Inr True" if "x \<in> set (resources g)" for x
  proof -
    from valid that obtain u where u: "resourceUri x = Inr u" by auto
    with that inc[of u] have "includesUri g' u" by auto
    with u show ?thesis by (simp add: includes_resource_def)
  qed
  have B: "includes_resource g' r = Inr True"
    if "r \<in> set rs" "includes_resource g r = Inr False" for r
  proof -
    from that have "r \<in> set kept" by (simp add: kept')
    from list_all2_left_set[OF rel this] obtain r' u where
      r': "r' \<in> set new" and u: "resourceUri r = Inr u" and
      eq: "r' = Resource g u (status r) (mergeStatus r) None"
      by blast
    from eq have "resourceUri r' = Inr u" by (simp add: resourceUri_def)
    with r' inc[of u] have "includesUri g' u" by auto
    with u show ?thesis by (simp add: includes_resource_def)
  qed
  from gid rs' rel kept' own A B show ?thesis by blast
qed

lemma recombination_total:
  assumes g: "newResourceGroup gid xs = Inr g"
    and l: "\<forall>r\<in>set rs. \<exists>u. resourceUri r = Inr u"
  shows "(\<exists>g1. except g rs = Inr g1) \<and> (\<exists>g2. intersect g rs = Inr g2)"
proof -
  from newResourceGroup_char[OF g] have
    xs: "resources g = xs" and gvalid: "\<forall>r\<in>set xs. \<exists>u. resourceUri r = Inr u" by blast+
  from indexResources_forEach_total[OF l, of Map.empty] obtain index where
    idx: "indexResources rs = Inr index" by (auto simp add: indexResources_def)
  let ?keep = "\<lambda>r. case resourceUri r of Inl e \<Rightarrow> Inl e
                 | Inr u \<Rightarrow> Inr (\<not> (index u \<noteq> (None :: bool option)))"
  have "\<forall>x\<in>set (resources g). \<exists>b. ?keep x = Inr b" using gvalid xs by auto
  from filter_throwing_total[OF this] have
    fl: "filter_throwing ?keep (resources g) = Inr (filter (\<lambda>x. ?keep x = Inr True) (resources g))" .
  have "\<forall>r\<in>set (filter (\<lambda>x. ?keep x = Inr True) (resources g)). \<exists>u. resourceUri r = Inr u"
    using gvalid xs by auto
  from newResourceGroup_total[OF this, of "group_id g"] idx fl
  have E: "\<exists>g1. except g rs = Inr g1" by (simp add: except_def)
  let ?absent = "\<lambda>r. case includes_resource g r of Inl e \<Rightarrow> Inl e | Inr b \<Rightarrow> Inr (\<not> b)"
  have "\<forall>r\<in>set rs. \<exists>b. ?absent r = Inr b" using l by (auto simp add: includes_resource_def)
  from filter_throwing_total[OF this] have
    fl2: "filter_throwing ?absent rs = Inr (filter (\<lambda>r. ?absent r = Inr True) rs)" .
  let ?kept = "filter (\<lambda>r. ?absent r = Inr True) rs"
  have "\<forall>r\<in>set ?kept. \<exists>y. rehome g r = Inr y" using l by (auto simp add: rehome_def)
  from map_throwing_total[OF this] obtain new where mp: "map_throwing (rehome g) ?kept = Inr new"
    by blast
  have "\<forall>r'\<in>set new. \<exists>u. resourceUri r' = Inr u"
  proof
    fix r' assume "r' \<in> set new"
    from list_all2_right_set[OF map_throwing_char[OF mp] this] obtain r where "rehome g r = Inr r'"
      by blast
    then show "\<exists>u. resourceUri r' = Inr u"
      by (auto simp add: rehome_def resourceUri_def split: sum.splits)
  qed
  with gvalid xs have "\<forall>r\<in>set (resources g @ new). \<exists>u. resourceUri r = Inr u" by auto
  from newResourceGroup_total[OF this, of "group_id g"] fl2 mp
  have I: "\<exists>g2. intersect g rs = Inr g2" by (simp add: intersect_def)
  from E I show ?thesis ..
qed

text \<open>
  C5, as the code has it. When \<open>except\<close> returns, the result has the receiver's
  identifier, includes no resource of the list and keeps exactly the receiver's resources
  whose location is not one of the list's. When \<open>intersect\<close> returns, the result has the
  receiver's identifier, its resources are the receiver's, unchanged and in order,
  followed by one new resource for each listed resource the receiver does not include, at
  the listed resource's effective location, with its status and merge status and no rename
  source; the result includes every resource of the receiver and every listed resource
  the receiver did not include. The owner of each new resource is the receiver, which is
  not the group returned. Both operations return for a constructed group and a list of
  resources that have a location.
\<close>

theorem group_recombination:
  "(\<forall>g1. except g rs = Inr g1 \<longrightarrow>
      group_id g1 = group_id g \<and>
      (\<forall>r\<in>set rs. includes_resource g1 r = Inr False) \<and>
      resources g1 = filter (\<lambda>x. \<forall>r\<in>set rs. resourceUri r \<noteq> resourceUri x) (resources g)) \<and>
   (\<forall>g2. intersect g rs = Inr g2 \<longrightarrow>
      group_id g2 = group_id g \<and>
      (\<exists>new. resources g2 = resources g @ new \<and>
         list_all2 (\<lambda>r r'. \<exists>u. resourceUri r = Inr u \<and>
             r' = Resource g u (status r) (mergeStatus r) None)
           (filter (\<lambda>r. includes_resource g r = Inr False) rs) new \<and>
         (\<forall>r'\<in>set new. resourceGroup r' = g \<and> resourceGroup r' \<noteq> g2)) \<and>
      (\<forall>x\<in>set (resources g). includes_resource g2 x = Inr True) \<and>
      (\<forall>r\<in>set rs. includes_resource g r = Inr False \<longrightarrow> includes_resource g2 r = Inr True)) \<and>
   ((\<exists>gid xs. newResourceGroup gid xs = Inr g) \<and> (\<forall>r\<in>set rs. \<exists>u. resourceUri r = Inr u) \<longrightarrow>
      (\<exists>g1. except g rs = Inr g1) \<and> (\<exists>g2. intersect g rs = Inr g2))"
  using except_char[of g rs] intersect_char[of g rs] recombination_total[of _ _ g rs]
  by blast

lemma ex_except_eval: "except ex_staging_a ex_resources = Inr (emptyGroup StagingID)"
  by (simp add: except_def eval_defs ex_resources_def)

lemma ex_intersect_eval: "intersect ex_staging_a ex_resources = Inr ex_intersect_group"
  by (auto simp add: intersect_def rehome_def includes_resource_def includesUri_def eval_defs
      ex_resources_def ex_intersect_group_def)

theorem group_recombination_witness:
  "except ex_staging_a ex_resources = Inr (emptyGroup StagingID) \<and>
   includes_resource (emptyGroup StagingID) (hd ex_resources) = Inr False \<and>
   includes_resource ex_staging_a (last ex_resources) = Inr False \<and>
   intersect ex_staging_a ex_resources = Inr ex_intersect_group \<and>
   includes_resource ex_intersect_group (last ex_resources) = Inr True \<and>
   Resource ex_staging_a ''/repo/b.txt'' RENAMED RESOLVED None
     \<in> set (resources ex_intersect_group)"
proof -
  have h: "hd ex_resources \<in> set ex_resources" "last ex_resources \<in> set ex_resources"
    by (simp_all add: ex_resources_def)
  have absent: "includes_resource ex_staging_a (last ex_resources) = Inr False"
    by (simp add: ex_resources_def ex_staging_a_def includes_resource_def includesUri_def
        resourceUri_def)
  have mem: "Resource ex_staging_a ''/repo/b.txt'' RENAMED RESOLVED None
               \<in> set (resources ex_intersect_group)"
    by (simp add: ex_intersect_group_def)
  from group_recombination[of ex_staging_a ex_resources] ex_except_eval ex_intersect_eval h absent
  have "includes_resource (emptyGroup StagingID) (hd ex_resources) = Inr False"
    and "includes_resource ex_intersect_group (last ex_resources) = Inr True"
    by blast+
  with ex_except_eval ex_intersect_eval absent mem show ?thesis by blast
qed

text \<open>
  C5 as stated fails on the owner. Staging the renamed resource into \<open>ex_staging_a\<close>
  returns \<open>ex_intersect_group\<close>; the new resource at \<open>b.txt\<close> is owned by the receiver
  \<open>ex_staging_a\<close>, which holds one resource, and not by the returned group, which holds
  two.
\<close>

theorem group_recombination_counterexample:
  "intersect ex_staging_a ex_resources = Inr ex_intersect_group \<and>
   includes_resource ex_staging_a (last ex_resources) = Inr False \<and>
   last (resources ex_intersect_group)
     = Resource ex_staging_a ''/repo/b.txt'' RENAMED RESOLVED None \<and>
   resourceGroup (last (resources ex_intersect_group)) = ex_staging_a \<and>
   length (resources ex_staging_a) = 1 \<and>
   length (resources ex_intersect_group) = 2 \<and>
   resourceGroup (last (resources ex_intersect_group)) \<noteq> ex_intersect_group"
  using ex_intersect_eval
  by (simp add: ex_intersect_group_def ex_staging_a_def ex_resources_def includes_resource_def
      includesUri_def resourceUri_def)

end
